theory Spec2Isabelle
  imports Complex_Main "HOL-Library.Sublist" "HOL-Library.Log_Nat"
begin

unbundle bit_operations_syntax

section \<open>Data frames\<close>

text \<open>
  The program (\<^verbatim>\<open>src/data/model_comp.py\<close>) works on pandas data frames. A data
  frame is modelled by its ordered column names and its rows, each row listing one cell
  per column in column order; the index is the default one (row positions). A cell is
  missing (\<open>NaN\<close>, which also stands for \<open>None\<close>), a number or a string. Python and
  pandas compare \<open>True\<close>, \<open>1\<close> and \<open>1.0\<close> as equal, so a Boolean or a float cell is the
  number it equals; floats are modelled by exact rationals.
\<close>

datatype cell = NaN | Num rat | Str string

record dataframe =
  columns :: "string list"
  rows :: "cell list list"

datatype error =
  KeyError | IndexError | TypeError | ArgumentError | ZeroDivisionError | UnboundLocalError

definition bind :: "error + 'a \<Rightarrow> ('a \<Rightarrow> error + 'b) \<Rightarrow> error + 'b" where
  \<comment> \<open>sequencing: an exception ends the call\<close>
  "bind x f = (case x of Inl e \<Rightarrow> Inl e | Inr v \<Rightarrow> f v)"

definition cell_at :: "string list \<Rightarrow> cell list \<Rightarrow> string \<Rightarrow> cell" where
  \<comment> \<open>the cell of row \<open>r\<close> under the first column named \<open>c\<close>\<close>
  "cell_at cols r c = (case map_of (zip cols r) c of Some v \<Rightarrow> v | None \<Rightarrow> NaN)"

definition getcol :: "dataframe \<Rightarrow> string \<Rightarrow> error + cell list" where
  \<comment> \<open>\<^verbatim>\<open>data[c]\<close>: the column as a series, KeyError when there is none\<close>
  "getcol data c =
     (if c \<in> set (columns data)
      then Inr (map (\<lambda>r. cell_at (columns data) r c) (rows data))
      else Inl KeyError)"

definition eq1 :: "cell \<Rightarrow> bool" where
  \<comment> \<open>one element of \<^verbatim>\<open>series == 1\<close> (and of \<^verbatim>\<open>series == True\<close>)\<close>
  "eq1 v = (v = Num 1)"

definition truthy :: "cell \<Rightarrow> bool" where
  \<comment> \<open>the cast of a cell to bool that pandas applies to the operand of a logical operator\<close>
  "truthy v = (case v of NaN \<Rightarrow> False | Num q \<Rightarrow> q \<noteq> 0 | Str s \<Rightarrow> s \<noteq> [])"

definition py_eq :: "cell \<Rightarrow> cell \<Rightarrow> bool" where
  \<comment> \<open>one element of \<^verbatim>\<open>series == value\<close>: a missing value equals nothing\<close>
  "py_eq a b = (a \<noteq> NaN \<and> b \<noteq> NaN \<and> a = b)"

definition sum_true :: "bool list \<Rightarrow> int" where
  \<comment> \<open>\<^verbatim>\<open>sum(mask)\<close> of a Boolean series, a Python int\<close>
  "sum_true bs = int (length (filter id bs))"

section \<open>Metric engine\<close>

text \<open>
  The quotient of two Python ints is a double, and \<^verbatim>\<open>round(x, 3)\<close> rounds that double.
  A double is modelled by the rational it denotes. \<open>double_of\<close> is rounding to the nearest
  double, ties to the even significand of 53 bits; the exponent range of a double is not
  modelled, the counts of a table that fits in memory being far inside it. The division
  gives the double nearest to the exact quotient. \<^verbatim>\<open>round(x, 3)\<close> rounds the exact value
  of the double \<open>x\<close> to three decimals, ties to even, and returns the double nearest to
  that decimal.
\<close>

definition round_half_even :: "rat \<Rightarrow> int" where
  "round_half_even q =
     (let f = \<lfloor>q\<rfloor>; d = q - of_int f
      in if d < 1 / 2 then f else if 1 / 2 < d then f + 1
         else if even f then f else f + 1)"

definition binary_exponent :: "rat \<Rightarrow> int" where
  \<comment> \<open>for \<open>0 < q\<close>, the \<open>e\<close> with \<open>2 ^ e \<le> q < 2 ^ (e + 1)\<close>\<close>
  "binary_exponent q =
     (if 1 \<le> q then int (floorlog 2 (nat \<lfloor>q\<rfloor>)) - 1
      else let l = int (floorlog 2 (nat \<lfloor>1 / q\<rfloor>))
           in if q = 2 powi (1 - l) then 1 - l else - l)"

definition double_of :: "rat \<Rightarrow> rat" where
  "double_of q =
     (if q = 0 then 0
      else let ulp = 2 powi (binary_exponent \<bar>q\<bar> - 52)
           in sgn q * of_int (round_half_even (\<bar>q\<bar> / ulp)) * ulp)"

definition truediv :: "int \<Rightarrow> int \<Rightarrow> rat" where
  \<comment> \<open>\<^verbatim>\<open>a / b\<close> on Python ints, for \<open>b\<close> other than 0\<close>
  "truediv a b = double_of (of_int a / of_int b)"

definition round3 :: "rat \<Rightarrow> rat" where
  \<comment> \<open>\<^verbatim>\<open>round(x, 3)\<close> on a double\<close>
  "round3 x = double_of (of_int (round_half_even (x * 1000)) / 1000)"

text \<open>
  \<open>modelName\<close> is a string or a list of strings.
\<close>

datatype selector = Single string | Multi "string list"

definition or_eq1 :: "bool \<Rightarrow> cell \<Rightarrow> bool" where
  \<comment> \<open>one element of \<^verbatim>\<open>modelFilter | data[model] == 1\<close>, which Python reads as
      \<^verbatim>\<open>(modelFilter | data[model]) == 1\<close>: the Boolean series is or-ed with the cast of
      the column to bool, and the Boolean result is compared with 1\<close>
  "or_eq1 b v = (of_bool (b \<or> truthy v) = (1::int))"

fun or_models :: "dataframe \<Rightarrow> string list \<Rightarrow> bool list \<Rightarrow> error + bool list" where
  \<comment> \<open>the loop \<^verbatim>\<open>for model in modelName[1:]\<close>\<close>
  "or_models data [] modelFilter = Inr modelFilter"
| "or_models data (model # ms) modelFilter =
     (case getcol data model of
        Inl e \<Rightarrow> Inl e
      | Inr col \<Rightarrow> or_models data ms (map2 or_eq1 modelFilter col))"

fun modelFilter_of :: "dataframe \<Rightarrow> selector \<Rightarrow> error + bool list" where
  \<comment> \<open>the first statement of both \<open>calcSensitivity\<close> and \<open>calcPrecision\<close>\<close>
  "modelFilter_of data (Multi []) = Inl IndexError"
| "modelFilter_of data (Multi (m0 # ms)) =
     (case getcol data m0 of
        Inl e \<Rightarrow> Inl e
      | Inr col \<Rightarrow> or_models data ms (map eq1 col))"
| "modelFilter_of data (Single m) =
     (case getcol data m of
        Inl e \<Rightarrow> Inl e
      | Inr col \<Rightarrow> Inr (map eq1 col))"

definition mask3 :: "cell list \<Rightarrow> cell list \<Rightarrow> cell list \<Rightarrow> bool list \<Rightarrow>
    cell \<Rightarrow> cell \<Rightarrow> bool list" where
  \<comment> \<open>\<^verbatim>\<open>parFilter & metabFilter & modelFilter\<close>. The first two series are indexed by the
      rows of \<open>markDF\<close> only; pandas aligns them with \<open>modelFilter\<close> on the index and
      reads the positions outside \<open>markDF\<close> as False.\<close>
  "mask3 mark dtxsid metab modelFilter par met =
     map (\<lambda>(k, d, m, f). eq1 k \<and> py_eq d par \<and> py_eq m met \<and> f)
       (zip mark (zip dtxsid (zip metab modelFilter)))"

definition sumMarkParents :: "dataframe \<Rightarrow> bool list \<Rightarrow> error + int" where
  "sumMarkParents dataFrame modelFilter =
     (case getcol dataFrame ''Markush'' of Inl e \<Rightarrow> Inl e | Inr mark \<Rightarrow>
      case getcol dataFrame ''DTXSID'' of Inl e \<Rightarrow> Inl e | Inr dtxsid \<Rightarrow>
      case getcol dataFrame ''Metabolite DTXSID'' of Inl e \<Rightarrow> Inl e | Inr metab \<Rightarrow>
        let par_metabMatch =
              map snd (filter (\<lambda>(k, p). eq1 k) (zip mark (zip dtxsid metab)));
            uniqueMatch = remdups par_metabMatch
        in Inr (fold (\<lambda>(par, met) sumReducedMark.
                   if 0 < sum_true (mask3 mark dtxsid metab modelFilter par met)
                   then sumReducedMark + 1 else sumReducedMark)
                 uniqueMatch 0))"

definition calcSensitivity :: "dataframe \<Rightarrow> selector \<Rightarrow> error + rat" where
  "calcSensitivity data modelName =
     (case modelFilter_of data modelName of Inl e \<Rightarrow> Inl e | Inr modelFilter \<Rightarrow>
      case getcol data ''Reported'' of Inl e \<Rightarrow> Inl e | Inr rep \<Rightarrow>
      case getcol data ''Markush'' of Inl e \<Rightarrow> Inl e | Inr mark \<Rightarrow>
        let reportFilter = map eq1 rep;
            markFilter = map eq1 mark;
            trueNonMark = sum_true (map (\<lambda>(f, r, k). f \<and> r \<and> \<not> k)
                                     (zip modelFilter (zip reportFilter markFilter)))
        in case sumMarkParents data modelFilter of Inl e \<Rightarrow> Inl e | Inr trueMarkParent \<Rightarrow>
           let reportNonMark = sum_true (map (\<lambda>(r, k). r \<and> \<not> k)
                                          (zip reportFilter markFilter))
           in case getcol data ''DTXSID'' of Inl e \<Rightarrow> Inl e | Inr dtxsid \<Rightarrow>
              case getcol data ''Metabolite DTXSID'' of Inl e \<Rightarrow> Inl e | Inr metab \<Rightarrow>
                let sel = map snd (filter (\<lambda>((r, k), p). r \<and> k)
                            (zip (zip reportFilter markFilter) (zip dtxsid metab)));
                    reportMarkParent = int (length (remdups sel))
                in if reportNonMark + reportMarkParent = 0 then Inl ZeroDivisionError
                   else Inr (round3 (truediv (trueNonMark + trueMarkParent)
                                             (reportNonMark + reportMarkParent))))"

definition calcPrecision :: "dataframe \<Rightarrow> selector \<Rightarrow> error + rat" where
  \<comment> \<open>The second guard is \<^verbatim>\<open>allPred == 0 & truePred == 0\<close>, which Python reads as the
      chain \<^verbatim>\<open>allPred == (0 & truePred) == 0\<close>. When neither guard holds,
      \<open>Precision\<close> is unbound at the \<^verbatim>\<open>return\<close>.\<close>
  "calcPrecision data modelName =
     (case modelFilter_of data modelName of Inl e \<Rightarrow> Inl e | Inr modelFilter \<Rightarrow>
      case getcol data ''Reported'' of Inl e \<Rightarrow> Inl e | Inr rep \<Rightarrow>
        let reportFilter = map eq1 rep;
            truePred = sum_true (map2 (\<and>) modelFilter reportFilter);
            allPred = sum_true modelFilter
        in if 0 < allPred then Inr (round3 (truediv truePred allPred))
           else if allPred = (0 AND truePred) \<and> (0 AND truePred) = 0 then Inr 0
           else Inl UnboundLocalError)"

subsection \<open>The metric engine in the words of the specification\<close>

definition names_of :: "selector \<Rightarrow> string list" where
  "names_of sel = (case sel of Single m \<Rightarrow> [m] | Multi ms \<Rightarrow> ms)"

definition selector_ok :: "dataframe \<Rightarrow> selector \<Rightarrow> bool" where
  "selector_ok data sel = (names_of sel \<noteq> [] \<and> list_all (\<lambda>c. c \<in> set (columns data)) (names_of sel))"

definition binary_flags :: "dataframe \<Rightarrow> string list \<Rightarrow> bool" where
  "binary_flags data names =
     list_all (\<lambda>r. list_all (\<lambda>c. cell_at (columns data) r c = Num 0 \<or> cell_at (columns data) r c = Num 1) names) (rows data)"

definition predicted :: "dataframe \<Rightarrow> selector \<Rightarrow> cell list \<Rightarrow> bool" where
  "predicted data sel r = list_ex (\<lambda>c. cell_at (columns data) r c = Num 1) (names_of sel)"

definition reported :: "dataframe \<Rightarrow> cell list \<Rightarrow> bool" where
  "reported data r = (cell_at (columns data) r ''Reported'' = Num 1)"


definition truePositive :: "dataframe \<Rightarrow> selector \<Rightarrow> nat" where
  "truePositive data sel = length (filter (\<lambda>r. predicted data sel r \<and> reported data r) (rows data))"

definition allPredicted :: "dataframe \<Rightarrow> selector \<Rightarrow> nat" where
  "allPredicted data sel = length (filter (predicted data sel) (rows data))"

definition ex_data :: dataframe where
  "ex_data = \<lparr>columns = [''DTXSID'', ''Metabolite DTXSID'', ''Markush'', ''Reported'', ''ToolBox'', ''Meteor'', ''TIMES''],
     rows = [[Str ''P1'', Str ''M1'', Num 0, Num 1, Num 1, Num 0, Num 0],
             [Str ''P1'', Str ''M2'', Num 0, Num 1, Num 0, Num 1, Num 0],
             [Str ''P1'', Str ''M3'', Num 0, Num 1, Num 0, Num 0, Num 0],
             [Str ''P2'', Str ''G1'', Num 1, Num 1, Num 0, Num 0, Num 0],
             [Str ''P2'', Str ''G1'', Num 1, Num 1, Num 1, Num 0, Num 0],
             [Str ''P2'', Str ''G1'', Num 1, Num 1, Num 0, Num 0, Num 0],
             [Str ''P2'', Num 0, Num 0, Num 0, Num 1, Num 1, Num 0]]\<rparr>"


definition markush :: "dataframe \<Rightarrow> cell list \<Rightarrow> bool" where
  "markush data r = (cell_at (columns data) r ''Markush'' = Num 1)"

definition pair_of :: "dataframe \<Rightarrow> cell list \<Rightarrow> cell \<times> cell" where
  "pair_of data r =
     (cell_at (columns data) r ''DTXSID'', cell_at (columns data) r ''Metabolite DTXSID'')"

definition group_columns :: "dataframe \<Rightarrow> bool" where
  "group_columns data =
     list_all (\<lambda>c. c \<in> set (columns data)) [''Markush'', ''DTXSID'', ''Metabolite DTXSID'']"

definition group_keys_present :: "dataframe \<Rightarrow> bool" where
  \<comment> \<open>no Markush row lacks its parent or its group identifier\<close>
  "group_keys_present data =
     list_all (\<lambda>r. fst (pair_of data r) \<noteq> NaN \<and> snd (pair_of data r) \<noteq> NaN)
       (filter (markush data) (rows data))"

definition metric_columns :: "dataframe \<Rightarrow> bool" where
  "metric_columns data = (''Reported'' \<in> set (columns data) \<and> group_columns data)"

definition sensitivity_scenario :: "dataframe \<Rightarrow> selector \<Rightarrow> bool" where
  \<comment> \<open>two non-ambiguous reported true positives, one non-ambiguous reported false
      negative, and the Markush rows are three reported rows of one pair, one of them
      predicted\<close>
  "sensitivity_scenario data sel =
     (length (filter (\<lambda>r. predicted data sel r \<and> reported data r \<and> \<not> markush data r)
        (rows data)) = 2 \<and>
      length (filter (\<lambda>r. \<not> predicted data sel r \<and> reported data r \<and> \<not> markush data r)
        (rows data)) = 1 \<and>
      (case filter (markush data) (rows data) of
         [a, b, c] \<Rightarrow>
           pair_of data a = pair_of data b \<and> pair_of data b = pair_of data c \<and>
           reported data a \<and> reported data b \<and> reported data c \<and>
           length (filter (predicted data sel) [a, b, c]) = 1
       | _ \<Rightarrow> False))"

definition nonAmbigTP :: "dataframe \<Rightarrow> selector \<Rightarrow> nat" where
  "nonAmbigTP data sel =
     length (filter (\<lambda>r. predicted data sel r \<and> reported data r \<and> \<not> markush data r) (rows data))"

definition ambigTP :: "dataframe \<Rightarrow> selector \<Rightarrow> nat" where
  "ambigTP data sel =
     length (remdups (map (pair_of data)
       (filter (\<lambda>r. markush data r \<and> predicted data sel r) (rows data))))"

definition reportedNonAmbig :: "dataframe \<Rightarrow> nat" where
  "reportedNonAmbig data =
     length (filter (\<lambda>r. reported data r \<and> \<not> markush data r) (rows data))"

definition reportedAmbig :: "dataframe \<Rightarrow> nat" where
  "reportedAmbig data =
     length (remdups (map (pair_of data)
       (filter (\<lambda>r. reported data r \<and> markush data r) (rows data))))"


definition rounded_to_3 :: "rat \<Rightarrow> rat \<Rightarrow> bool" where
  \<comment> \<open>\<open>r\<close> is, to the precision of a double, a multiple of 1/1000 within half a
      thousandth of \<open>q\<close>\<close>
  "rounded_to_3 q r =
     (\<exists>k\<ge>0. \<bar>r - of_int k / 1000\<bar> \<le> (of_int k / 1000) / 2 ^ 53 \<and>
            \<bar>of_int k / 1000 - q\<bar> \<le> 1 / 2000 + q / 2 ^ 53)"

definition p80 :: dataframe where
  \<comment> \<open>80 predicted rows, one of them reported\<close>
  "p80 = \<lparr>columns = [''Reported'', ''A''],
          rows = [Num 1, Num 1] # replicate 79 [Num 0, Num 1]\<rparr>"

definition s80 :: dataframe where
  \<comment> \<open>80 reported rows without Markush groups, three of them predicted\<close>
  "s80 = \<lparr>columns = [''DTXSID'', ''Metabolite DTXSID'', ''Markush'', ''Reported'', ''A''],
          rows = replicate 3 [Str ''P'', Str ''M'', Num 0, Num 1, Num 1]
               @ replicate 77 [Str ''P'', Str ''M'', Num 0, Num 1, Num 0]\<rparr>"

section \<open>Aggregator\<close>

text \<open>
  The pandas operations that \<open>aggregate_DFs\<close> calls. \<^verbatim>\<open>df.drop(labels, axis = 1)\<close>
  removes every column with one of the labels and raises KeyError when a label names no
  column.
\<close>

definition drop_columns :: "string list \<Rightarrow> dataframe \<Rightarrow> error + dataframe" where
  "drop_columns labels df =
     (if list_all (\<lambda>c. c \<in> set (columns df)) labels
      then Inr \<lparr>columns = filter (\<lambda>c. c \<notin> set labels) (columns df),
                rows = map (\<lambda>r. map snd (filter (\<lambda>(c, v). c \<notin> set labels) (zip (columns df) r)))
                         (rows df)\<rparr>
      else Inl KeyError)"

definition fill0 :: "cell \<Rightarrow> cell" where
  "fill0 v = (if v = NaN then Num 0 else v)"

definition replace_nan :: "dataframe \<Rightarrow> dataframe" where
  \<comment> \<open>\<^verbatim>\<open>df.replace(np.NaN, 0)\<close>\<close>
  "replace_nan df = df\<lparr>rows := map (map fill0) (rows df)\<rparr>"

definition drop_duplicates :: "dataframe \<Rightarrow> dataframe" where
  \<comment> \<open>keeps the first of equal rows, in order, and renumbers the index\<close>
  "drop_duplicates df = df\<lparr>rows := rev (remdups (rev (rows df)))\<rparr>"

text \<open>
  \<^verbatim>\<open>pd.merge(left, right, on = ..., how = ...)\<close>. The result has the columns of
  \<open>left\<close> followed by the columns of \<open>right\<close> that are no keys; a column name outside
  the keys that both frames have gets the suffix \<open>_x\<close> on the left and \<open>_y\<close> on the
  right. Rows match when their keys are equal, missing keys matching each other; a row
  without a match is kept, according to \<open>how\<close>, with the other frame's cells missing.
  pandas sorts the rows of an outer join by key; the model lists the rows of \<open>left\<close>
  with their matches first and the unmatched rows of \<open>right\<close> after them, and no
  property below depends on the order of rows.
\<close>

datatype how = Inner | Outer | LeftJoin | RightJoin

definition key_of :: "string list \<Rightarrow> string list \<Rightarrow> cell list \<Rightarrow> cell list" where
  "key_of on cols r = map (cell_at cols r) on"

definition others_of :: "string list \<Rightarrow> string list \<Rightarrow> cell list \<Rightarrow> cell list" where
  "others_of on cols r = map snd (filter (\<lambda>(c, v). c \<notin> set on) (zip cols r))"

definition suffixed :: "string list \<Rightarrow> string list \<Rightarrow> string \<Rightarrow> string \<Rightarrow> string" where
  "suffixed on other sfx c = (if c \<notin> set on \<and> c \<in> set other then c @ sfx else c)"

definition merged_columns :: "string list \<Rightarrow> string list \<Rightarrow> string list \<Rightarrow> string list" where
  "merged_columns on lc rc =
     map (suffixed on rc ''_x'') lc @
     map (suffixed on lc ''_y'') (filter (\<lambda>c. c \<notin> set on) rc)"

definition matched_rows :: "string list \<Rightarrow> how \<Rightarrow> dataframe \<Rightarrow> dataframe \<Rightarrow> cell list \<Rightarrow>
    cell list list" where
  "matched_rows on hw left right l =
     (let ms = filter (\<lambda>r. key_of on (columns right) r = key_of on (columns left) l)
                 (rows right)
      in if ms = []
         then (if hw = Outer \<or> hw = LeftJoin
               then [l @ replicate (length (filter (\<lambda>c. c \<notin> set on) (columns right))) NaN]
               else [])
         else map (\<lambda>r. l @ others_of on (columns right) r) ms)"

definition right_only_rows :: "string list \<Rightarrow> how \<Rightarrow> dataframe \<Rightarrow> dataframe \<Rightarrow> cell list list" where
  "right_only_rows on hw left right =
     (if hw = Outer \<or> hw = RightJoin
      then map (\<lambda>r. map (\<lambda>c. if c \<in> set on then cell_at (columns right) r c else NaN)
                       (columns left)
                   @ others_of on (columns right) r)
             (filter (\<lambda>r. key_of on (columns right) r
                           \<notin> set (map (key_of on (columns left)) (rows left)))
                (rows right))
      else [])"

definition merge :: "dataframe \<Rightarrow> dataframe \<Rightarrow> string list \<Rightarrow> how \<Rightarrow> error + dataframe" where
  "merge left right on hw =
     (if list_all (\<lambda>k. k \<in> set (columns left) \<and> k \<in> set (columns right)) on
      then Inr \<lparr>columns = merged_columns on (columns left) (columns right),
                rows = concat (map (matched_rows on hw left right) (rows left))
                       @ right_only_rows on hw left right\<rparr>
      else Inl KeyError)"

text \<open>
  \<open>aggregate_DFs\<close>. The two \<^verbatim>\<open>try\<close> blocks drop the column \<open>Clean_SMILES\<close> and keep
  the frame as it is when the drop raises.
\<close>

definition excludedColumns :: "string list" where
  "excludedColumns = [''Clean_SMILES'']"

definition drop_excluded :: "dataframe \<Rightarrow> dataframe" where
  "drop_excluded df = (case drop_columns excludedColumns df of Inl e \<Rightarrow> df | Inr d \<Rightarrow> d)"

fun merge_loop :: "dataframe \<Rightarrow> dataframe list \<Rightarrow> string list \<Rightarrow> how \<Rightarrow> error + dataframe" where
  \<comment> \<open>the loop over \<open>comp_DF\<close>\<close>
  "merge_loop agg_DF [] arg_on arg_how = Inr agg_DF"
| "merge_loop agg_DF (addDF # comp_DF) arg_on arg_how =
     (case merge agg_DF (drop_excluded addDF) arg_on arg_how of
        Inl e \<Rightarrow> Inl e
      | Inr m \<Rightarrow> merge_loop (replace_nan m) comp_DF arg_on arg_how)"

fun aggregate_DFs :: "dataframe list \<Rightarrow> string list \<Rightarrow> how \<Rightarrow> error + dataframe option" where
  \<comment> \<open>\<open>None\<close> is the bare \<^verbatim>\<open>return\<close> taken when \<open>numDF < 2\<close>\<close>
  "aggregate_DFs [] arg_on arg_how = Inr None"
| "aggregate_DFs [d] arg_on arg_how = Inr None"
| "aggregate_DFs (d0 # comp_DF) arg_on arg_how =
     (case merge_loop (drop_excluded d0) comp_DF arg_on arg_how of
        Inl e \<Rightarrow> Inl e
      | Inr agg_DF \<Rightarrow> Inr (Some (drop_duplicates agg_DF)))"

definition arg_on_default :: "string list" where
  "arg_on_default = [''DTXSID'', ''Metabolite_INCHIKEY'']"

definition aggregate :: "dataframe list \<Rightarrow> error + dataframe option" where
  \<comment> \<open>\<open>aggregate_DFs\<close> with its default arguments\<close>
  "aggregate DF_List = aggregate_DFs DF_List arg_on_default Outer"

subsection \<open>Comparing aggregated tables\<close>

definition tA :: dataframe where
  "tA = \<lparr>columns = [''DTXSID'', ''Metabolite_INCHIKEY'', ''Clean_SMILES'', ''ToolBox''],
     rows = [[Str ''P1'', Str ''K1'', Str ''CCO'', Num 1],
             [Str ''P1'', Str ''K2'', Str ''CC'', Num 1]]\<rparr>"
definition tB :: dataframe where
  "tB = \<lparr>columns = [''DTXSID'', ''Metabolite_INCHIKEY'', ''Clean_SMILES'', ''Meteor''],
     rows = [[Str ''P1'', Str ''K1'', Str ''CCO'', Num 1],
             [Str ''P2'', Str ''K3'', Str ''C'', Num 1]]\<rparr>"
definition tC :: dataframe where
  "tC = \<lparr>columns = [''DTXSID'', ''Metabolite_INCHIKEY'', ''Clean_SMILES'', ''Formula'', ''ToolBox''],
     rows = [[Str ''P1'', Str ''K1'', Str ''CCO'', Str ''C2H6O'', Num 1],
             [Str ''P3'', Str ''K3'', Str ''C'', Str ''CH4'', Num 1]]\<rparr>"

definition same_table :: "error + dataframe option \<Rightarrow> error + dataframe option \<Rightarrow> bool" where
  \<comment> \<open>the same outcome up to the order of rows\<close>
  "same_table x y =
     (case x of
        Inl e \<Rightarrow> y = Inl e
      | Inr None \<Rightarrow> y = Inr None
      | Inr (Some a) \<Rightarrow>
          (case y of
             Inr (Some b) \<Rightarrow> columns a = columns b \<and> set (rows a) = set (rows b) \<and>
                              length (rows a) = length (rows b)
           | _ \<Rightarrow> False))"

definition aggregate_nested :: "dataframe \<Rightarrow> dataframe \<Rightarrow> dataframe \<Rightarrow> string list \<Rightarrow> how \<Rightarrow>
    error + dataframe option" where
  \<comment> \<open>\<^verbatim>\<open>aggregate_DFs([aggregate_DFs([A, B]), C])\<close>\<close>
  "aggregate_nested A B C arg_on arg_how =
     (case aggregate_DFs [A, B] arg_on arg_how of
        Inl e \<Rightarrow> Inl e
      | Inr None \<Rightarrow> aggregate_DFs [C] arg_on arg_how
      | Inr (Some ab) \<Rightarrow> aggregate_DFs [ab, C] arg_on arg_how)"


definition aligned :: "dataframe \<Rightarrow> bool" where
  \<comment> \<open>every row has one cell per column\<close>
  "aligned df = list_all (\<lambda>r. length r = length (columns df)) (rows df)"

definition has_keys :: "dataframe \<Rightarrow> bool" where
  "has_keys df = list_all (\<lambda>k. k \<in> set (columns df)) arg_on_default"

definition filled_key :: "dataframe \<Rightarrow> cell list \<Rightarrow> cell list" where
  \<comment> \<open>the (DTXSID, Metabolite_INCHIKEY) pair of a row, a missing part read as 0\<close>
  "filled_key df r = map fill0 (key_of arg_on_default (columns df) r)"

definition flag_columns :: "dataframe \<Rightarrow> string list" where
  \<comment> \<open>the columns that a frame contributes besides the keys\<close>
  "flag_columns df = filter (\<lambda>c. c \<notin> set arg_on_default) (columns (drop_excluded df))"

definition name_left :: "dataframe \<Rightarrow> string \<Rightarrow> string" where
  \<comment> \<open>the name that a column of the left frame has after the merge with \<open>B\<close>\<close>
  "name_left B c = suffixed arg_on_default (columns (drop_excluded B)) ''_x'' c"

definition name_right :: "dataframe \<Rightarrow> string \<Rightarrow> string" where
  "name_right A c = suffixed arg_on_default (columns (drop_excluded A)) ''_y'' c"

definition distinct_merged :: "dataframe \<Rightarrow> dataframe \<Rightarrow> bool" where
  \<comment> \<open>the merge of the two frames gives no column name twice\<close>
  "distinct_merged A B =
     distinct (merged_columns arg_on_default (columns (drop_excluded A))
                 (columns (drop_excluded B)))"


definition dupA :: dataframe where
  "dupA = \<lparr>columns = [''DTXSID'', ''Metabolite_INCHIKEY'', ''Clean_SMILES'', ''Formula'',
                         ''[M+H]'', ''TIMES''],
     rows = [[Str ''P1'', Str ''K-CCO'', Str ''CCO'', Str ''F-CCO'', Num 7, Num 1],
             [Str ''P1'', Str ''K-CCO'', Str ''CCO'', Str ''F-CCO'', Num 7, Num 1]]\<rparr>"

definition oneB :: dataframe where
  "oneB = \<lparr>columns = [''DTXSID'', ''Metabolite_INCHIKEY'', ''Meteor''],
     rows = [[Str ''P2'', Str ''K3'', Num 1]]\<rparr>"


definition is_string :: "cell \<Rightarrow> bool" where
  "is_string v = (case v of Str s \<Rightarrow> True | _ \<Rightarrow> False)"

definition string_keys :: "dataframe \<Rightarrow> bool" where
  \<comment> \<open>both identifiers of every row are strings\<close>
  "string_keys df =
     list_all (\<lambda>r. list_all (\<lambda>k. is_string (cell_at (columns df) r k)) arg_on_default)
       (rows df)"

definition keys_of :: "dataframe \<Rightarrow> cell list list" where
  \<comment> \<open>the (DTXSID, Metabolite_INCHIKEY) pairs of the rows, in order\<close>
  "keys_of df = map (key_of arg_on_default (columns df)) (rows df)"

section \<open>Structure library and adapters\<close>

text \<open>
  The functions of RDKit that the program calls are parameters of the model; \<open>'m\<close> is
  the type of molecules. \<open>MolFromSmiles\<close> returns \<open>None\<close> for a string it cannot
  parse and raises TypeError for an argument that is no string; every other function
  raises ArgumentError when it is given \<open>None\<close> for a molecule. \<open>MolToSmiles\<close> is the
  call with \<^verbatim>\<open>isomericSmiles = False\<close>, and \<open>MolToInchiKey\<close> is \<open>MolToInchi\<close> followed
  by \<open>InchiToInchiKey\<close>.
\<close>

record 'm rdkit =
  MolFromSmiles :: "string \<Rightarrow> 'm option"
  MolToSmiles :: "'m \<Rightarrow> string"
  MolToInchiKey :: "'m \<Rightarrow> string"
  ExactMolWt :: "'m \<Rightarrow> rat"
  CalcMolFormula :: "'m \<Rightarrow> string"

fun apply_series :: "('a \<Rightarrow> error + 'b) \<Rightarrow> 'a list \<Rightarrow> error + 'b list" where
  \<comment> \<open>\<^verbatim>\<open>series.apply(f)\<close>: the first exception ends the call\<close>
  "apply_series f [] = Inr []"
| "apply_series f (x # xs) =
     (case f x of
        Inl e \<Rightarrow> Inl e
      | Inr y \<Rightarrow> (case apply_series f xs of Inl e \<Rightarrow> Inl e | Inr ys \<Rightarrow> Inr (y # ys)))"

definition mol_of_cell :: "'m rdkit \<Rightarrow> cell \<Rightarrow> error + 'm option" where
  \<comment> \<open>\<^verbatim>\<open>Chem.MolFromSmiles(x)\<close> on a cell\<close>
  "mol_of_cell rd x = (case x of Str s \<Rightarrow> Inr (MolFromSmiles rd s) | _ \<Rightarrow> Inl TypeError)"

definition on_mol :: "('m \<Rightarrow> 'b) \<Rightarrow> 'm option \<Rightarrow> error + 'b" where
  \<comment> \<open>an RDKit function of a molecule, called on the result of \<open>MolFromSmiles\<close>\<close>
  "on_mol f m = (case m of None \<Rightarrow> Inl ArgumentError | Some x \<Rightarrow> Inr (f x))"

definition SMILES_to_InchiKey :: "'m rdkit \<Rightarrow> cell list \<Rightarrow> bool \<Rightarrow> error + cell list" where
  "SMILES_to_InchiKey rd smile_List stereoisomer =
     (if \<not> stereoisomer
      then (case apply_series (mol_of_cell rd) smile_List of Inl e \<Rightarrow> Inl e | Inr molList \<Rightarrow>
            case apply_series (on_mol (MolToSmiles rd)) molList of Inl e \<Rightarrow> Inl e | Inr clean \<Rightarrow>
            case apply_series (\<lambda>s. Inr (MolFromSmiles rd s)) clean of Inl e \<Rightarrow> Inl e | Inr molList' \<Rightarrow>
              apply_series (on_mol (\<lambda>m. Str (MolToInchiKey rd m))) molList')
      else (case apply_series (mol_of_cell rd) smile_List of Inl e \<Rightarrow> Inl e | Inr molList \<Rightarrow>
              apply_series (on_mol (\<lambda>m. Str (MolToInchiKey rd m))) molList))"

definition clean_SMILES :: "'m rdkit \<Rightarrow> cell list \<Rightarrow> error + cell list" where
  \<comment> \<open>the call with \<^verbatim>\<open>source = 'SMILES'\<close>\<close>
  "clean_SMILES rd series_List =
     (case apply_series (mol_of_cell rd) series_List of Inl e \<Rightarrow> Inl e | Inr mol_list \<Rightarrow>
        apply_series (on_mol (\<lambda>m. Str (MolToSmiles rd m))) mol_list)"

definition SMILES_to_MW :: "'m rdkit \<Rightarrow> cell list \<Rightarrow> error + (cell list \<times> cell list)" where
  \<comment> \<open>returns the columns \<open>Formula\<close> and \<open>[M+H]\<close>\<close>
  "SMILES_to_MW rd smile_List =
     (case on_mol (ExactMolWt rd) (MolFromSmiles rd ''[H+]'') of Inl e \<Rightarrow> Inl e | Inr mass_H \<Rightarrow>
      case apply_series (mol_of_cell rd) smile_List of Inl e \<Rightarrow> Inl e | Inr molList \<Rightarrow>
      case apply_series (on_mol (\<lambda>m. Num (ExactMolWt rd m + mass_H))) molList of
        Inl e \<Rightarrow> Inl e | Inr MH_list \<Rightarrow>
      case apply_series (on_mol (\<lambda>m. Str (CalcMolFormula rd m))) molList of
        Inl e \<Rightarrow> Inl e | Inr molForm_list \<Rightarrow> Inr (molForm_list, MH_list))"

subsection \<open>Column and row operations\<close>

definition setcol :: "string \<Rightarrow> cell list \<Rightarrow> dataframe \<Rightarrow> dataframe" where
  \<comment> \<open>\<^verbatim>\<open>df[name] = values\<close>: overwrites the column, or appends it when it is new\<close>
  "setcol name vs df =
     (if name \<in> set (columns df)
      then df\<lparr>rows := map2 (\<lambda>r v. map (\<lambda>(c, x). if c = name then v else x) (zip (columns df) r))
                          (rows df) vs\<rparr>
      else \<lparr>columns = columns df @ [name], rows = map2 (\<lambda>r v. r @ [v]) (rows df) vs\<rparr>)"

definition setcol_const :: "string \<Rightarrow> cell \<Rightarrow> dataframe \<Rightarrow> dataframe" where
  \<comment> \<open>\<^verbatim>\<open>df[name] = v\<close> for a scalar\<close>
  "setcol_const name v df = setcol name (replicate (length (rows df)) v) df"

definition select_columns :: "string list \<Rightarrow> dataframe \<Rightarrow> error + dataframe" where
  \<comment> \<open>\<^verbatim>\<open>df[[c1, ..., cn]]\<close>\<close>
  "select_columns names df =
     (if list_all (\<lambda>c. c \<in> set (columns df)) names
      then Inr \<lparr>columns = names, rows = map (\<lambda>r. map (cell_at (columns df) r) names) (rows df)\<rparr>
      else Inl KeyError)"

definition rename_column :: "string \<Rightarrow> string \<Rightarrow> dataframe \<Rightarrow> dataframe" where
  "rename_column old new df = df\<lparr>columns := map (\<lambda>c. if c = old then new else c) (columns df)\<rparr>"

definition py_slice :: "int \<Rightarrow> int \<Rightarrow> 'a list \<Rightarrow> 'a list" where
  \<comment> \<open>\<^verbatim>\<open>xs[start:stop]\<close>: a negative bound counts from the end, and bounds are clipped\<close>
  "py_slice start stop xs =
     (let n = int (length xs);
          clip = (\<lambda>i. if i < 0 then max 0 (n + i) else min i n);
          a = clip start; b = clip stop
      in take (nat (b - a)) (drop (nat a) xs))"

definition filter_rows :: "bool list \<Rightarrow> dataframe \<Rightarrow> dataframe" where
  \<comment> \<open>\<^verbatim>\<open>df[mask]\<close>\<close>
  "filter_rows keep df = df\<lparr>rows := map fst (filter snd (zip (rows df) keep))\<rparr>"

fun ffill :: "cell \<Rightarrow> cell list \<Rightarrow> cell list" where
  \<comment> \<open>\<^verbatim>\<open>fillna(method = 'ffill')\<close>, carrying the last value seen\<close>
  "ffill seen [] = []"
| "ffill seen (v # vs) = (if v = NaN then seen # ffill seen vs else v # ffill v vs)"

fun scatter :: "bool list \<Rightarrow> cell list \<Rightarrow> cell list" where
  \<comment> \<open>a series computed for the selected positions, aligned on the index of the frame:
      missing at the other positions\<close>
  "scatter [] vs = []"
| "scatter (True # bs) (v # vs) = v # scatter bs vs"
| "scatter (True # bs) [] = NaN # scatter bs []"
| "scatter (False # bs) vs = NaN # scatter bs vs"

subsection \<open>The adapter for Oasis TIMES\<close>

text \<open>
  \<open>TIMES_cleanup\<close>. The file is represented by the frame that \<^verbatim>\<open>pd.read_csv\<close> returns
  for it.
\<close>

definition TIMES_select :: "dataframe \<Rightarrow> string \<Rightarrow> int \<Rightarrow> error + dataframe" where
  \<comment> \<open>lines 102 to 108: the two columns, the rows \<^verbatim>\<open>[header:-2]\<close>, the source flag,
      blank identifiers made missing, the key column initialised\<close>
  "TIMES_select file Model_Module header =
     bind (select_columns [''DTXSID'', ''Smiles''] (rename_column ''Chem. Name'' ''DTXSID'' file))
       (\<lambda>df1.
     let df2 = df1\<lparr>rows := py_slice header (- 2) (rows df1)\<rparr>;
         df3 = setcol_const Model_Module (Num 1) df2
     in bind (getcol df3 ''DTXSID'') (\<lambda>dtxsid.
     let df4 = setcol ''DTXSID'' (map (\<lambda>v. if v = Str '' '' then NaN else v) dtxsid) df3
     in Inr (setcol_const ''Metabolite_INCHIKEY'' NaN df4)))"

definition TIMES_metabolites :: "'m rdkit \<Rightarrow> dataframe \<Rightarrow> error + dataframe" where
  \<comment> \<open>lines 109 to 113: keys of the rows without identifier, forward fill, the rows with
      a key, without duplicates\<close>
  "TIMES_metabolites rd df =
     bind (getcol df ''Smiles'') (\<lambda>smiles.
     bind (getcol df ''DTXSID'') (\<lambda>dtxsid.
     let isnull = map (\<lambda>v. v = NaN) dtxsid;
         metabList = map fst (filter snd (zip smiles isnull))
     in bind (SMILES_to_InchiKey rd metabList True) (\<lambda>inchikeys.
     let df6 = setcol ''Metabolite_INCHIKEY'' (scatter isnull inchikeys) df
     in bind (getcol df6 ''DTXSID'') (\<lambda>dtxsid'.
     let df7 = setcol ''DTXSID'' (ffill NaN dtxsid') df6
     in bind (getcol df7 ''Metabolite_INCHIKEY'') (\<lambda>ik.
        Inr (drop_duplicates (filter_rows (map (\<lambda>v. v \<noteq> NaN) ik) df7)))))))"

definition TIMES_properties :: "'m rdkit \<Rightarrow> dataframe \<Rightarrow> string \<Rightarrow> error + dataframe" where
  \<comment> \<open>lines 114 to 116: formula, mass, clean SMILES and the columns returned\<close>
  "TIMES_properties rd df Model_Module =
     bind (getcol df ''Smiles'') (\<lambda>smiles.
     bind (SMILES_to_MW rd smiles) (\<lambda>fm.
     let df9 = setcol ''[M+H]'' (snd fm) (setcol ''Formula'' (fst fm) df)
     in bind (getcol df9 ''Smiles'') (\<lambda>smiles'.
     bind (clean_SMILES rd smiles') (\<lambda>clean.
       select_columns [''DTXSID'', ''Metabolite_INCHIKEY'', ''Clean_SMILES'', ''Formula'',
                       ''[M+H]'', Model_Module]
         (setcol ''Clean_SMILES'' clean df9)))))"

definition TIMES_cleanup :: "'m rdkit \<Rightarrow> dataframe \<Rightarrow> string \<Rightarrow> int \<Rightarrow> error + dataframe" where
  "TIMES_cleanup rd file Model_Module header =
     bind (TIMES_select file Model_Module header) (\<lambda>df.
     bind (TIMES_metabolites rd df) (\<lambda>df'.
       TIMES_properties rd df' Model_Module))"

definition times_file :: "cell list list \<Rightarrow> string \<Rightarrow> string \<Rightarrow> string \<Rightarrow> string \<Rightarrow> string \<Rightarrow> string \<Rightarrow>
    cell list \<Rightarrow> cell list \<Rightarrow> dataframe" where
  \<comment> \<open>a TIMES export: leading rows, the rows of parent \<open>P1\<close> with two metabolites, the
      row of parent \<open>P2\<close>, and two trailing rows\<close>
  "times_file pre P1 s0 s1 s2 P2 s3 t1 t2 =
     \<lparr>columns = [''Chem. Name'', ''Smiles''],
      rows = pre @ [[Str P1, Str s0], [NaN, Str s1], [NaN, Str s2], [Str P2, Str s3]]
                 @ [t1, t2]\<rparr>"

definition metabolite_row :: "'m rdkit \<Rightarrow> string \<Rightarrow> 'm \<Rightarrow> 'm \<Rightarrow> cell list" where
  \<comment> \<open>the output row of a metabolite \<open>m\<close> of parent \<open>P\<close>; \<open>h\<close> is the molecule of \<open>[H+]\<close>\<close>
  "metabolite_row rd P m h =
     [Str P, Str (MolToInchiKey rd m), Str (MolToSmiles rd m), Str (CalcMolFormula rd m),
      Num (ExactMolWt rd m + ExactMolWt rd h), Num 1]"


section \<open>Extended aggregator\<close>

fun contains :: "string \<Rightarrow> string \<Rightarrow> bool" where
  \<comment> \<open>\<^verbatim>\<open>sub in s\<close> for strings\<close>
  "contains sub [] = (sub = [])"
| "contains sub (c # cs) = (prefix sub (c # cs) \<or> contains sub cs)"

fun str_le :: "string \<Rightarrow> string \<Rightarrow> bool" where
  \<comment> \<open>the order of Python on strings\<close>
  "str_le [] t = True"
| "str_le (a # s) [] = False"
| "str_le (a # s) (b # t) = ((of_char a :: nat) < of_char b \<or> (a = b \<and> str_le s t))"

definition cell_le :: "cell \<Rightarrow> cell \<Rightarrow> bool" where
  \<comment> \<open>the order in which tied modes are listed. pandas sorts them; it leaves modes of
      mixed types unsorted, and the model lists numbers before strings there.\<close>
  "cell_le a b =
     (case a of
        NaN \<Rightarrow> True
      | Num x \<Rightarrow> (case b of NaN \<Rightarrow> False | Num y \<Rightarrow> x \<le> y | Str t \<Rightarrow> True)
      | Str s \<Rightarrow> (case b of Str t \<Rightarrow> str_le s t | _ \<Rightarrow> False))"

definition row_mode :: "cell list \<Rightarrow> cell" where
  \<comment> \<open>column 0 of \<^verbatim>\<open>mode(axis = 1, dropna = True)\<close> for one row: the first of the most
      frequent values that are not missing, missing when there is none\<close>
  "row_mode vs =
     (let present = filter (\<lambda>v. v \<noteq> NaN) vs;
          top = fold max (map (count_list present) present) 0;
          modes = filter (\<lambda>v. count_list present v = top) (remdups present)
      in case modes of
           [] \<Rightarrow> NaN
         | m # ms \<Rightarrow> fold (\<lambda>v b. if cell_le v b then v else b) ms m)"

fun merge_loop_extended :: "dataframe \<Rightarrow> dataframe list \<Rightarrow> string list \<Rightarrow> how \<Rightarrow>
    error + dataframe" where
  \<comment> \<open>the loop of \<open>aggregate_DFs_extended\<close>, which drops no column\<close>
  "merge_loop_extended agg_DF [] arg_on arg_how = Inr agg_DF"
| "merge_loop_extended agg_DF (d # comp_DF) arg_on arg_how =
     (case merge agg_DF d arg_on arg_how of
        Inl e \<Rightarrow> Inl e
      | Inr m \<Rightarrow> merge_loop_extended (replace_nan m) comp_DF arg_on arg_how)"

definition consensus_SMILES :: "dataframe \<Rightarrow> error + dataframe" where
  \<comment> \<open>lines 292 to 298. \<^verbatim>\<open>mode_smiles[0]\<close> raises KeyError when the frame of modes has
      no column, that is when no row has a value in a column whose name contains
      \<open>Clean_SMILES\<close>.\<close>
  "consensus_SMILES agg_DF =
     (let tmp_SMILES_cols = filter (contains ''Clean_SMILES'') (columns agg_DF);
          all_smiles = map (\<lambda>r. map (\<lambda>v. if v = Num 0 then NaN else v)
                         (map snd (filter (\<lambda>(c, v). contains ''Clean_SMILES'' c)
                                     (zip (columns agg_DF) r))))
                         (rows agg_DF);
          mode_smiles = map row_mode all_smiles
      in if list_all (\<lambda>v. v = NaN) mode_smiles then Inl KeyError
         else bind (drop_columns tmp_SMILES_cols (setcol ''SMILES'' mode_smiles agg_DF))
                (\<lambda>d. Inr (drop_duplicates d)))"

definition add_properties :: "'m rdkit \<Rightarrow> dataframe \<Rightarrow> error + dataframe" where
  \<comment> \<open>lines 300 to 310. The two series that the code concatenates and sorts by index
      are one series here, with the sentinel at the rows whose molecule is \<open>None\<close>.\<close>
  "add_properties rd agg_DF =
     bind (getcol agg_DF ''SMILES'') (\<lambda>smiles.
     bind (apply_series (mol_of_cell rd) smiles) (\<lambda>molList.
     bind (on_mol (ExactMolWt rd) (MolFromSmiles rd ''[H+]'')) (\<lambda>mass_H.
     let MH_series_for_DF =
           map (\<lambda>m. case m of None \<Rightarrow> Str ''Incompatible SMILES''
                             | Some x \<Rightarrow> Num (ExactMolWt rd x + mass_H)) molList;
         Formula_series_for_DF =
           map (\<lambda>m. case m of None \<Rightarrow> Str ''Incompatible SMILES''
                             | Some x \<Rightarrow> Str (CalcMolFormula rd x)) molList
     in Inr (setcol ''Formula'' Formula_series_for_DF
               (setcol ''[M+H]'' MH_series_for_DF agg_DF)))))"

fun aggregate_DFs_extended :: "'m rdkit \<Rightarrow> dataframe list \<Rightarrow> string list \<Rightarrow> how \<Rightarrow>
    error + dataframe option" where
  "aggregate_DFs_extended rd [] arg_on arg_how = Inr None"
| "aggregate_DFs_extended rd [d] arg_on arg_how = Inr None"
| "aggregate_DFs_extended rd (d0 # comp_DF) arg_on arg_how =
     bind (merge_loop_extended d0 comp_DF arg_on arg_how) (\<lambda>agg_DF.
     bind (consensus_SMILES agg_DF) (\<lambda>df.
     bind (add_properties rd df) (\<lambda>out. Inr (Some out))))"

subsection \<open>Example inputs\<close>

text \<open>
  A stand-in for RDKit, with strings for molecules: every string but \<open>bad\<close> parses,
  and \<open>OCC\<close> and \<open>CCO\<close> are two ways of writing one molecule.
\<close>

definition toy_rdkit :: "string rdkit" where
  "toy_rdkit = \<lparr>MolFromSmiles = (\<lambda>s. if s = ''bad'' then None
                                       else if s = ''OCC'' then Some ''CCO'' else Some s),
                 MolToSmiles = (\<lambda>m. m),
                 MolToInchiKey = (\<lambda>m. ''K-'' @ m),
                 ExactMolWt = (\<lambda>m. of_nat (length m)),
                 CalcMolFormula = (\<lambda>m. ''F-'' @ m)\<rparr>"

definition times4 :: dataframe where
  "times4 = \<lparr>columns = [''Chem. Name'', ''Smiles''],
     rows = [[Str ''P1'', Str ''s0''], [NaN, Str ''s1''], [NaN, Str ''s2''],
             [Str ''P2'', Str ''s3'']]\<rparr>"

definition eA :: dataframe where
  "eA = \<lparr>columns = [''DTXSID'', ''Metabolite_INCHIKEY'', ''Clean_SMILES'', ''ToolBox''],
     rows = [[Str ''P1'', Str ''K1'', Str ''CCO'', Num 1],
             [Str ''P1'', Str ''K2'', Str ''bad'', Num 1]]\<rparr>"

definition eB :: dataframe where
  "eB = \<lparr>columns = [''DTXSID'', ''Metabolite_INCHIKEY'', ''Clean_SMILES'', ''Meteor''],
     rows = [[Str ''P1'', Str ''K1'', Str ''OCC'', Num 1],
             [Str ''P2'', Str ''K3'', Str ''C'', Num 1]]\<rparr>"

definition timesDup :: dataframe where
  "timesDup = \<lparr>columns = [''#'', ''Chem. Name'', ''Smiles''],
     rows = [[Num 0, Str ''units'', NaN],
             [Num 1, Str ''P1'', Str ''C=C''], [Num 2, Str '' '', Str ''CCO''],
             [Num 3, Str '' '', Str ''OCC''],
             [NaN, NaN, NaN], [NaN, NaN, NaN]]\<rparr>"

section \<open>Evaluation rules\<close>

lemmas frame_simps = bind_def getcol_def cell_at_def setcol_def setcol_const_def
  select_columns_def rename_column_def py_slice_def filter_rows_def drop_duplicates_def

lemmas rdkit_simps = toy_rdkit_def mol_of_cell_def on_mol_def SMILES_to_InchiKey_def
  clean_SMILES_def SMILES_to_MW_def


section \<open>Properties of the metric engine\<close>

subsection \<open>Rounding\<close>

lemma round_half_even_close: "\<bar>of_int (round_half_even x) - x\<bar> \<le> 1 / 2"
proof -
  have "of_int \<lfloor>x\<rfloor> \<le> x" "x < of_int \<lfloor>x\<rfloor> + 1" by linarith+
  then show ?thesis
    unfolding round_half_even_def Let_def by (auto simp: abs_le_iff) 
qed

lemma round_half_even_nonneg: "0 \<le> x \<Longrightarrow> 0 \<le> round_half_even x"
proof -
  assume "0 \<le> x"
  then have "0 \<le> \<lfloor>x\<rfloor>" by simp
  then show ?thesis unfolding round_half_even_def Let_def by auto
qed

lemma binary_exponent_bounds:
  assumes "0 < q"
  shows "2 powi (binary_exponent q) \<le> q" and "q < 2 powi (binary_exponent q + 1)"
proof -
  have "2 powi (binary_exponent q) \<le> q \<and> q < 2 powi (binary_exponent q + 1)"
  proof (cases "1 \<le> q")
    case True
    let ?n = "nat \<lfloor>q\<rfloor>" and ?l = "floorlog 2 (nat \<lfloor>q\<rfloor>)"
    have n: "0 < ?n" using True by simp
    from floorlog_bounds[OF n, of 2]
    have b: "2 ^ (?l - 1) \<le> ?n" "?n < 2 ^ ?l" by simp_all
    have l: "0 < ?l" using n by (simp add: floorlog_def)
    have "0 \<le> \<lfloor>q\<rfloor>" using True by simp
    then have nf: "rat_of_nat ?n = of_int \<lfloor>q\<rfloor>" by simp
    have nq: "rat_of_nat ?n \<le> q" "q < rat_of_nat ?n + 1"
      unfolding nf by linarith+
    have "(2::rat) ^ (?l - 1) \<le> rat_of_nat ?n"
      using b(1) by (metis of_nat_le_iff of_nat_numeral of_nat_power)
    then have lo: "(2::rat) ^ (?l - 1) \<le> q" using nq by linarith
    have "Suc ?n \<le> 2 ^ ?l" using b(2) by (rule Suc_leI)
    then have "rat_of_nat (Suc ?n) \<le> 2 ^ ?l"
      by (metis of_nat_le_iff of_nat_numeral of_nat_power)
    then have hi: "q < (2::rat) ^ ?l" using nq by simp
    have e: "binary_exponent q = int (?l - 1)"
      using True l by (simp add: binary_exponent_def)
    have e1: "binary_exponent q + 1 = int ?l" using e l by simp
    show ?thesis unfolding e1 unfolding e using lo hi by simp
  next
    case False
    then have q1: "q < 1" by simp
    let ?n = "nat \<lfloor>1 / q\<rfloor>" and ?l = "floorlog 2 (nat \<lfloor>1 / q\<rfloor>)"
    have iq: "1 < 1 / q" using assms q1 by simp
    then have n: "0 < ?n" by simp
    from floorlog_bounds[OF n, of 2]
    have b: "2 ^ (?l - 1) \<le> ?n" "?n < 2 ^ ?l" by simp_all
    have l: "0 < ?l" using n by (simp add: floorlog_def)
    have "0 \<le> \<lfloor>1 / q\<rfloor>" using assms by simp
    then have nf: "rat_of_nat ?n = of_int \<lfloor>1 / q\<rfloor>" by simp
    have nq: "rat_of_nat ?n \<le> 1 / q" "1 / q < rat_of_nat ?n + 1"
      unfolding nf by linarith+
    have "(2::rat) ^ (?l - 1) \<le> rat_of_nat ?n"
      using b(1) by (metis of_nat_le_iff of_nat_numeral of_nat_power)
    then have lo: "(2::rat) ^ (?l - 1) \<le> 1 / q" using nq by linarith
    have "Suc ?n \<le> 2 ^ ?l" using b(2) by (rule Suc_leI)
    then have "rat_of_nat (Suc ?n) \<le> 2 ^ ?l"
      by (metis of_nat_le_iff of_nat_numeral of_nat_power)
    then have hi: "1 / q < (2::rat) ^ ?l" using nq by simp
    have up: "q \<le> 1 / 2 ^ (?l - 1)"
      using lo assms by (simp add: field_simps)
    have dn: "1 / 2 ^ ?l < q"
      using hi assms by (simp add: field_simps)
    have p1: "(2::rat) powi (1 - int ?l) = 1 / 2 ^ (?l - 1)"
      using l by (simp add: power_int_def nat_diff_distrib' field_simps) 
    have p2: "(2::rat) powi (- int ?l) = 1 / 2 ^ ?l"
      by (simp add: power_int_minus_divide)
    show ?thesis
    proof (cases "q = 2 powi (1 - int ?l)")
      case True
      then have e: "binary_exponent q = 1 - int ?l"
        using q1 by (simp add: binary_exponent_def Let_def)
      have "(2::rat) powi (1 - int ?l) < 2 powi (1 - int ?l + 1)"
        by (rule power_int_strict_increasing) simp_all
      then have "q < 2 powi (1 - int ?l + 1)"
        using True by simp
      then show ?thesis unfolding e using True by simp
    next
      case ne: False
      then have e: "binary_exponent q = - int ?l"
        using q1 by (simp add: binary_exponent_def Let_def)
      have "- int ?l + 1 = 1 - int ?l" by simp
      then show ?thesis unfolding e using ne up dn p1 p2 by simp
    qed
  qed
  then show "2 powi (binary_exponent q) \<le> q" and "q < 2 powi (binary_exponent q + 1)"
    by simp_all
qed


lemma double_of_close:
  assumes "0 < q"
  shows "\<bar>double_of q - q\<bar> \<le> q / 2 ^ 53" and "0 \<le> double_of q"
proof -
  let ?e = "binary_exponent q"
  let ?ulp = "(2::rat) powi (?e - 52)"
  let ?m = "round_half_even (q / ?ulp)"
  have up: "0 < ?ulp" by (simp add: zero_less_power_int)
  have d: "double_of q = of_int ?m * ?ulp"
    using assms by (simp add: double_of_def Let_def)
  have "?ulp = 2 powi ?e / 2 ^ 52"
    by (simp add: power_int_diff)
  also have "\<dots> \<le> q / 2 ^ 52"
    using binary_exponent_bounds(1)[OF assms] by (simp add: divide_right_mono)
  finally have ule: "?ulp \<le> q / 2 ^ 52" .
  have "\<bar>of_int ?m * ?ulp - q\<bar> = \<bar>of_int ?m - q / ?ulp\<bar> * ?ulp"
    using up by (simp add: abs_mult[symmetric] left_diff_distrib del: abs_mult)
      (simp add: abs_mult[symmetric] field_simps)
  also have "\<dots> \<le> (1 / 2) * ?ulp"
    using round_half_even_close[of "q / ?ulp"] up by (intro mult_right_mono) simp_all
  also have "\<dots> \<le> (1 / 2) * (q / 2 ^ 52)" using ule by simp
  also have "\<dots> = q / 2 ^ 53" by simp
  finally show "\<bar>double_of q - q\<bar> \<le> q / 2 ^ 53" unfolding d .
  have "0 \<le> q / ?ulp" using assms up by simp
  then have "0 \<le> ?m" by (rule round_half_even_nonneg)
  then show "0 \<le> double_of q" unfolding d using up by simp
qed

lemma double_of_close0:
  assumes "0 \<le> q"
  shows "\<bar>double_of q - q\<bar> \<le> q / 2 ^ 53" and "0 \<le> double_of q"
  using assms double_of_close[of q] by (cases "q = 0"; simp add: double_of_def)+

lemma round3_truediv_rounded:
  assumes "0 \<le> a" and "0 < b"
  shows "rounded_to_3 (of_int a / of_int b) (round3 (truediv a b))"
proof -
  let ?q = "rat_of_int a / of_int b"
  let ?x = "double_of ?q"
  let ?k = "round_half_even (?x * 1000)"
  have q: "0 \<le> ?q" using assms by simp
  have x: "\<bar>?x - ?q\<bar> \<le> ?q / 2 ^ 53" "0 \<le> ?x" using double_of_close0[OF q] by simp_all
  have k0: "0 \<le> ?k" using x(2) by (intro round_half_even_nonneg) simp
  then have kq: "0 \<le> rat_of_int ?k / 1000" by simp
  have r: "\<bar>round3 ?x - of_int ?k / 1000\<bar> \<le> (of_int ?k / 1000) / 2 ^ 53"
    unfolding round3_def using double_of_close0(1)[OF kq] .
  have "\<bar>of_int ?k - ?x * 1000\<bar> \<le> 1 / 2" by (rule round_half_even_close)
  then have "\<bar>of_int ?k / 1000 - ?x\<bar> \<le> 1 / 2000" by (simp add: abs_le_iff field_simps)
  then have "\<bar>of_int ?k / 1000 - ?q\<bar> \<le> 1 / 2000 + ?q / 2 ^ 53" using x(1) by linarith
  then show ?thesis unfolding rounded_to_3_def truediv_def using k0 r by blast
qed


lemma round3_three_quarters: "round3 (truediv 3 4) = 3 / 4"
  by code_simp

lemma round3_one_of_80: "round3 (truediv 1 80) = 7493989779944505 / 576460752303423488"
  by code_simp

lemma round3_three_of_80: "round3 (truediv 3 80) = 5332261958806667 / 144115188075855872"
  by code_simp

subsection \<open>Counting\<close>

lemma getcol_Inr: "c \<in> set (columns data) \<Longrightarrow>
  getcol data c = Inr (map (\<lambda>r. cell_at (columns data) r c) (rows data))"
  by (simp add: getcol_def)

lemma map2_map_map: "map2 f (map g xs) (map h xs) = map (\<lambda>x. f (g x) (h x)) xs"
  by (induction xs) auto

lemma or_models_map:
  "set ms \<subseteq> set (columns data) \<Longrightarrow>
   or_models data ms (map f (rows data)) =
     Inr (map (\<lambda>r. f r \<or> list_ex (\<lambda>c. truthy (cell_at (columns data) r c)) ms) (rows data))"
proof (induction ms arbitrary: f)
  case Nil
  then show ?case by simp
next
  case (Cons m ms)
  have "or_models data (m # ms) (map f (rows data)) =
        or_models data ms (map (\<lambda>r. or_eq1 (f r) (cell_at (columns data) r m)) (rows data))"
    using Cons.prems by (simp add: getcol_Inr map2_map_map)
  also have "\<dots> = Inr (map (\<lambda>r. or_eq1 (f r) (cell_at (columns data) r m) \<or>
                 list_ex (\<lambda>c. truthy (cell_at (columns data) r c)) ms) (rows data))"
    using Cons.prems by (intro Cons.IH) simp
  finally show ?case by (simp add: or_eq1_def disj_assoc)
qed

lemma modelFilter_of_truthy:
  assumes "selector_ok data sel"
  shows "modelFilter_of data sel =
     Inr (map (\<lambda>r. eq1 (cell_at (columns data) r (hd (names_of sel))) \<or>
                   list_ex (\<lambda>c. truthy (cell_at (columns data) r c)) (tl (names_of sel))) (rows data))"
proof (cases sel)
  case (Single m)
  then show ?thesis using assms by (simp add: selector_ok_def names_of_def getcol_Inr)
next
  case (Multi ms)
  then obtain m0 rest where ms: "ms = m0 # rest"
    using assms by (cases ms) (auto simp: selector_ok_def names_of_def)
  have sub: "set rest \<subseteq> set (columns data)" and m0: "m0 \<in> set (columns data)"
    using assms Multi ms by (auto simp: selector_ok_def names_of_def list_all_iff)
  show ?thesis using Multi ms m0
    by (simp add: names_of_def getcol_Inr or_models_map[OF sub])
qed

lemma binary_truthy:
  "v = Num 0 \<or> v = Num 1 \<Longrightarrow> truthy v = (v = Num 1)"
  by (auto simp: truthy_def)

lemma modelFilter_of_predicted:
  assumes ok: "selector_ok data sel" and bin: "binary_flags data (names_of sel)"
  shows "modelFilter_of data sel = Inr (map (predicted data sel) (rows data))"
proof -
  obtain m0 rest where n: "names_of sel = m0 # rest"
    using ok by (cases "names_of sel") (auto simp: selector_ok_def)
  have "\<And>r. r \<in> set (rows data) \<Longrightarrow>
     (eq1 (cell_at (columns data) r m0) \<or> list_ex (\<lambda>c. truthy (cell_at (columns data) r c)) rest)
     = predicted data sel r"
    using bin unfolding binary_flags_def predicted_def n list_all_iff list_ex_iff eq1_def
    by (auto simp: binary_truthy)
  then show ?thesis
    unfolding modelFilter_of_truthy[OF ok] n by simp
qed


lemma sum_true_map: "sum_true (map P xs) = int (length (filter P xs))"
  by (simp add: sum_true_def filter_map comp_def)

lemma zip_map_map: "zip (map g xs) (map h xs) = map (\<lambda>x. (g x, h x)) xs"
  by (induction xs) auto

lemma calcPrecision_eq:
  assumes ok: "selector_ok data sel" and bin: "binary_flags data (names_of sel)"
    and rep: "''Reported'' \<in> set (columns data)"
  shows "calcPrecision data sel =
     Inr (if allPredicted data sel = 0 then 0
          else round3 (truediv (int (truePositive data sel)) (int (allPredicted data sel))))"
proof -
  let ?rep = "map (\<lambda>r. cell_at (columns data) r ''Reported'') (rows data)"
  have tp: "sum_true (map2 (\<and>) (map (predicted data sel) (rows data)) (map eq1 ?rep))
            = int (truePositive data sel)"
    unfolding map_map zip_map_map sum_true_map
    by (simp add: truePositive_def reported_def eq1_def comp_def)
  have ap: "sum_true (map (predicted data sel) (rows data)) = int (allPredicted data sel)"
    by (simp add: sum_true_map allPredicted_def)
  show ?thesis
    unfolding calcPrecision_def modelFilter_of_predicted[OF ok bin] getcol_Inr[OF rep]
      sum.case Let_def tp ap
    by simp
qed


lemma and_zero_int: "(0::int) AND x = 0"
  by simp

lemma sum_true_nonneg: "0 \<le> sum_true bs"
  by (simp add: sum_true_def)

lemma sum_true_map2_le: "sum_true (map2 (\<and>) xs ys) \<le> sum_true xs"
proof (induction xs arbitrary: ys)
  case Nil
  then show ?case by (simp add: sum_true_def)
next
  case (Cons x xs)
  show ?case
  proof (cases ys)
    case Nil
    then show ?thesis by (simp add: sum_true_def)
  next
    case (Cons y ys')
    with Cons.IH[of ys'] show ?thesis by (auto simp: sum_true_def)
  qed
qed

text \<open>
  C3. When the selected columns hold only 0 and 1, precision is 0.0 if no row has the
  model flag set, whatever the Reported column holds. Otherwise it is Python's
  \<^verbatim>\<open>round(truePositive / allPredicted, 3)\<close>, where \<open>truePositive\<close> counts the rows that are
  both predicted and reported and \<open>allPredicted\<close> the rows that are predicted: to the
  precision of a double, a multiple of 1/1000 within half a thousandth of the quotient.
\<close>

theorem calcPrecision_spec:
  assumes "selector_ok data sel" and "binary_flags data (names_of sel)"
    and "''Reported'' \<in> set (columns data)"
  shows "\<exists>r. calcPrecision data sel = Inr r \<and>
     (allPredicted data sel = 0 \<longrightarrow> r = 0) \<and>
     (allPredicted data sel \<noteq> 0 \<longrightarrow>
        r = round3 (truediv (int (truePositive data sel)) (int (allPredicted data sel))) \<and>
        rounded_to_3 (of_nat (truePositive data sel) / of_nat (allPredicted data sel)) r)"
proof (cases "allPredicted data sel = 0")
  case True
  then show ?thesis using calcPrecision_eq[OF assms] by simp
next
  case False
  then have "rounded_to_3 (of_int (int (truePositive data sel)) / of_int (int (allPredicted data sel)))
      (round3 (truediv (int (truePositive data sel)) (int (allPredicted data sel))))"
    by (intro round3_truediv_rounded) simp_all
  then show ?thesis using calcPrecision_eq[OF assms] False by simp
qed

theorem calcPrecision_spec_witness:
  "calcPrecision ex_data (Multi [''ToolBox'', ''Meteor'']) = Inr (3 / 4) \<and>
   calcPrecision ex_data (Single ''TIMES'') = Inr 0 \<and>
   calcPrecision p80 (Single ''A'') = Inr (7493989779944505 / 576460752303423488)"
proof -
  let ?m = "Multi [''ToolBox'', ''Meteor'']" and ?s = "Single ''TIMES''"
  have ok: "selector_ok ex_data ?m" "selector_ok ex_data ?s"
    by (simp_all add: selector_ok_def names_of_def ex_data_def)
  have bin: "binary_flags ex_data (names_of ?m)"
    by (simp add: binary_flags_def names_of_def ex_data_def cell_at_def)
  have rep: "''Reported'' \<in> set (columns ex_data)"
    by (simp add: ex_data_def)
  have ap: "allPredicted ex_data ?m = 4"
    by (simp add: allPredicted_def predicted_def names_of_def ex_data_def cell_at_def)
  have tp: "truePositive ex_data ?m = 3"
    by (simp add: truePositive_def predicted_def reported_def names_of_def ex_data_def
        cell_at_def)
  have m: "calcPrecision ex_data ?m = Inr (3 / 4)"
    using calcPrecision_spec[OF ok(1) bin rep] by (auto simp: ap tp round3_three_quarters)
  have ap0: "allPredicted ex_data ?s = 0"
    by (simp add: allPredicted_def predicted_def names_of_def ex_data_def cell_at_def)
  have bin0: "binary_flags ex_data (names_of ?s)"
    by (simp add: binary_flags_def names_of_def ex_data_def cell_at_def)
  have s: "calcPrecision ex_data ?s = Inr 0"
    using calcPrecision_spec[OF ok(2) bin0 rep] by (auto simp: ap0)
  have ok80: "selector_ok p80 (Single ''A'')"
    by (simp add: selector_ok_def names_of_def p80_def)
  have bin80: "binary_flags p80 (names_of (Single ''A''))"
    by (simp add: binary_flags_def names_of_def p80_def cell_at_def list_all_iff)
  have rep80: "''Reported'' \<in> set (columns p80)"
    by (simp add: p80_def)
  have ap80: "allPredicted p80 (Single ''A'') = 80"
    by (simp add: allPredicted_def predicted_def names_of_def p80_def cell_at_def)
  have tp80: "truePositive p80 (Single ''A'') = 1"
    by (simp add: truePositive_def predicted_def reported_def names_of_def p80_def cell_at_def)
  have t: "calcPrecision p80 (Single ''A'') = Inr (7493989779944505 / 576460752303423488)"
    using calcPrecision_spec[OF ok80 bin80 rep80] by (auto simp: ap80 tp80 round3_one_of_80)
  show ?thesis using m s t by simp
qed

text \<open>
  C9. With a list of column names whose columns hold only 0 and 1, the model filter of
  \<open>calcSensitivity\<close> and \<open>calcPrecision\<close> marks a row exactly when one of the named
  flags is 1 there: it is the union of the filters of the single columns.
\<close>

theorem modelFilter_list_is_union:
  assumes "names \<noteq> []" and "set names \<subseteq> set (columns data)"
    and "binary_flags data names"
  shows "modelFilter_of data (Multi names) =
           Inr (map (\<lambda>r. list_ex (\<lambda>c. cell_at (columns data) r c = Num 1) names) (rows data))
         \<and> (\<forall>c \<in> set names. modelFilter_of data (Single c) =
               Inr (map (\<lambda>r. cell_at (columns data) r c = Num 1) (rows data)))"
proof
  have ok: "selector_ok data (Multi names)"
    using assms by (auto simp: selector_ok_def names_of_def list_all_iff)
  show "modelFilter_of data (Multi names) =
           Inr (map (\<lambda>r. list_ex (\<lambda>c. cell_at (columns data) r c = Num 1) names) (rows data))"
    using modelFilter_of_predicted[OF ok] assms(3)
    by (simp add: names_of_def predicted_def[abs_def])
  show "\<forall>c \<in> set names. modelFilter_of data (Single c) =
               Inr (map (\<lambda>r. cell_at (columns data) r c = Num 1) (rows data))"
    using assms(2) by (auto simp: getcol_Inr eq1_def)
qed

theorem modelFilter_list_is_union_witness:
  "modelFilter_of ex_data (Multi [''ToolBox'', ''Meteor''])
     = Inr [True, True, False, False, True, False, True]
   \<and> modelFilter_of ex_data (Single ''ToolBox'')
     = Inr [True, False, False, False, True, False, True]
   \<and> modelFilter_of ex_data (Single ''Meteor'')
     = Inr [False, True, False, False, False, False, True]"
proof -
  have ne: "[''ToolBox'', ''Meteor''] \<noteq> []" by simp
  have sub: "set [''ToolBox'', ''Meteor''] \<subseteq> set (columns ex_data)"
    by (simp add: ex_data_def)
  have bin: "binary_flags ex_data [''ToolBox'', ''Meteor'']"
    by (simp add: binary_flags_def ex_data_def cell_at_def)
  have rs: "rows ex_data = [[Str ''P1'', Str ''M1'', Num 0, Num 1, Num 1, Num 0, Num 0],
             [Str ''P1'', Str ''M2'', Num 0, Num 1, Num 0, Num 1, Num 0],
             [Str ''P1'', Str ''M3'', Num 0, Num 1, Num 0, Num 0, Num 0],
             [Str ''P2'', Str ''G1'', Num 1, Num 1, Num 0, Num 0, Num 0],
             [Str ''P2'', Str ''G1'', Num 1, Num 1, Num 1, Num 0, Num 0],
             [Str ''P2'', Str ''G1'', Num 1, Num 1, Num 0, Num 0, Num 0],
             [Str ''P2'', Num 0, Num 0, Num 0, Num 1, Num 1, Num 0]]"
    and cs: "columns ex_data = [''DTXSID'', ''Metabolite DTXSID'', ''Markush'', ''Reported'',
             ''ToolBox'', ''Meteor'', ''TIMES'']"
    by (simp_all add: ex_data_def)
  show ?thesis
    using modelFilter_list_is_union[OF ne sub bin]
    by (simp add: rs cs cell_at_def)
qed

text \<open>
  C10. With a selector that names existing columns and a Reported column,
  \<open>calcPrecision\<close> returns a value: the count of predicted rows is not negative and
  bounds the count of true predictions, so one of the two guards holds and the exit with
  \<open>Precision\<close> unbound is never taken.
\<close>

theorem calcPrecision_returns:
  assumes "selector_ok data sel" and "''Reported'' \<in> set (columns data)"
  shows "\<exists>mf rep. modelFilter_of data sel = Inr mf \<and> getcol data ''Reported'' = Inr rep \<and>
           0 \<le> sum_true mf \<and> sum_true (map2 (\<and>) mf (map eq1 rep)) \<le> sum_true mf \<and>
           (0 < sum_true mf \<or> sum_true mf = 0) \<and>
           (\<exists>v. calcPrecision data sel = Inr v)"
proof -
  obtain mf where mf: "modelFilter_of data sel = Inr mf"
    using modelFilter_of_truthy[OF assms(1)] by blast
  obtain rep where rep: "getcol data ''Reported'' = Inr rep"
    using getcol_Inr[OF assms(2)] by blast
  have nn: "0 \<le> sum_true mf" by (rule sum_true_nonneg)
  have le: "sum_true (map2 (\<and>) mf (map eq1 rep)) \<le> sum_true mf" by (rule sum_true_map2_le)
  have "\<exists>v. calcPrecision data sel = Inr v"
    unfolding calcPrecision_def mf rep sum.case Let_def and_zero_int
    using nn by (cases "0 < sum_true mf") auto
  with mf rep nn le show ?thesis by auto
qed

theorem calcPrecision_returns_witness:
  "\<exists>v. calcPrecision ex_data (Single ''Meteor'') = Inr v"
proof -
  have ok: "selector_ok ex_data (Single ''Meteor'')"
    by (simp add: selector_ok_def names_of_def ex_data_def)
  have rep: "''Reported'' \<in> set (columns ex_data)"
    by (simp add: ex_data_def)
  from calcPrecision_returns[OF ok rep] show ?thesis by blast
qed


lemma fold_count: "fold (\<lambda>k n. if Q k then n + 1 else n) ks (a::int) = a + int (length (filter Q ks))"
  by (induction ks arbitrary: a) auto

lemma zip3_map: "zip (map f xs) (zip (map g xs) (map h xs)) = map (\<lambda>x. (f x, g x, h x)) xs"
  by (induction xs) auto

lemma zip4_map:
  "zip (map f xs) (zip (map g xs) (zip (map h xs) (map k xs))) = map (\<lambda>x. (f x, g x, h x, k x)) xs"
  by (induction xs) auto

lemma zip22_map:
  "zip (zip (map f xs) (map g xs)) (zip (map h xs) (map k xs)) = map (\<lambda>x. ((f x, g x), h x, k x)) xs"
  by (induction xs) auto

lemma map_snd_filter_map:
  "map snd (filter (\<lambda>(k, p). Q k) (map (\<lambda>x. (f x, g x)) xs)) = map g (filter (\<lambda>x. Q (f x)) xs)"
  by (induction xs) auto

lemma sumMarkParents_eq:
  assumes cols: "group_columns data"
  shows "sumMarkParents data (map P (rows data)) =
     Inr (int (length (filter
        (\<lambda>(par, met). \<exists>r \<in> set (rows data). markush data r \<and>
            py_eq (fst (pair_of data r)) par \<and> py_eq (snd (pair_of data r)) met \<and> P r)
        (remdups (map (pair_of data) (filter (markush data) (rows data)))))))"
proof -
  let ?cs = "columns data" and ?rs = "rows data"
  have c: "''Markush'' \<in> set ?cs" "''DTXSID'' \<in> set ?cs" "''Metabolite DTXSID'' \<in> set ?cs"
    using cols by (simp_all add: group_columns_def)
  have pm: "map snd (filter (\<lambda>(k, p). eq1 k)
              (zip (map (\<lambda>r. cell_at ?cs r ''Markush'') ?rs)
                (zip (map (\<lambda>r. cell_at ?cs r ''DTXSID'') ?rs)
                     (map (\<lambda>r. cell_at ?cs r ''Metabolite DTXSID'') ?rs))))
            = map (pair_of data) (filter (markush data) ?rs)"
    unfolding zip3_map map_snd_filter_map
    by (simp add: eq1_def markush_def[abs_def] pair_of_def[abs_def])
  have m3: "\<And>par met. sum_true (mask3 (map (\<lambda>r. cell_at ?cs r ''Markush'') ?rs)
                (map (\<lambda>r. cell_at ?cs r ''DTXSID'') ?rs)
                (map (\<lambda>r. cell_at ?cs r ''Metabolite DTXSID'') ?rs) (map P ?rs) par met)
         = int (length (filter (\<lambda>r. markush data r \<and> py_eq (fst (pair_of data r)) par \<and>
                py_eq (snd (pair_of data r)) met \<and> P r) ?rs))"
    unfolding mask3_def zip4_map
    by (simp add: sum_true_map markush_def pair_of_def eq1_def comp_def)
  have pos: "\<And>Q xs. (0 < int (length (filter Q xs))) = (\<exists>x \<in> set xs. Q x)"
    by (auto simp: filter_empty_conv)
  show ?thesis
    unfolding sumMarkParents_def getcol_Inr[OF c(1)] getcol_Inr[OF c(2)] getcol_Inr[OF c(3)]
      sum.case Let_def pm m3 pos
    by (simp add: fold_count[where a=0, simplified] case_prod_unfold)
qed


lemma length_filter_remdups_sum:
  "int (length (filter Q (remdups ks))) = (\<Sum>k \<in> set ks. if Q k then 1 else 0)"
proof -
  have "distinct (filter Q (remdups ks))" by simp
  then have "length (filter Q (remdups ks)) = card (set (filter Q (remdups ks)))"
    by (rule distinct_card[symmetric])
  also have "\<dots> = card {k \<in> set ks. Q k}" by simp
  finally show ?thesis by (simp add: sum.If_cases Int_def)
qed

lemma py_eq_present: "a \<noteq> NaN \<Longrightarrow> py_eq a b = (a = b)"
  by (auto simp: py_eq_def)

lemma group_match:
  assumes "group_keys_present data" and "r \<in> set (rows data)" and "markush data r"
  shows "(py_eq (fst (pair_of data r)) par \<and> py_eq (snd (pair_of data r)) met)
         = (pair_of data r = (par, met))"
proof -
  have "fst (pair_of data r) \<noteq> NaN" "snd (pair_of data r) \<noteq> NaN"
    using assms by (auto simp: group_keys_present_def list_all_iff)
  then show ?thesis by (auto simp: py_eq_present)
qed

lemma sumMarkParents_pairs:
  assumes cols: "group_columns data" and keys: "group_keys_present data"
  shows "sumMarkParents data (map P (rows data)) =
     Inr (int (length (filter
        (\<lambda>k. \<exists>r \<in> set (rows data). markush data r \<and> pair_of data r = k \<and> P r)
        (remdups (map (pair_of data) (filter (markush data) (rows data)))))))"
proof -
  have "(\<lambda>(par, met). \<exists>r \<in> set (rows data). markush data r \<and>
            py_eq (fst (pair_of data r)) par \<and> py_eq (snd (pair_of data r)) met \<and> P r)
      = (\<lambda>k. \<exists>r \<in> set (rows data). markush data r \<and> pair_of data r = k \<and> P r)"
    using group_match[OF keys] by (auto simp: fun_eq_iff)
  then show ?thesis using sumMarkParents_eq[OF cols, of P] by simp
qed

text \<open>
  C2. In \<open>sumMarkParents\<close>, every distinct (DTXSID, Metabolite DTXSID) pair of the
  Markush rows adds exactly one when some Markush row with that pair has the model flag
  set, and nothing otherwise. The Reported column plays no part: it is not read.
\<close>

theorem sumMarkParents_spec:
  assumes "selector_ok data sel" and "binary_flags data (names_of sel)"
    and "group_columns data" and "group_keys_present data"
  shows "\<exists>mf. modelFilter_of data sel = Inr mf \<and>
     sumMarkParents data mf =
       Inr (\<Sum>k \<in> set (map (pair_of data) (filter (markush data) (rows data))).
              if (\<exists>r \<in> set (rows data). markush data r \<and> pair_of data r = k \<and>
                    predicted data sel r)
              then 1 else 0)"
  using modelFilter_of_predicted[OF assms(1,2)] sumMarkParents_pairs[OF assms(3,4)]
  by (simp add: length_filter_remdups_sum)


lemma ambig_count:
  "length (filter (\<lambda>k. \<exists>r \<in> set rs. M r \<and> f r = k \<and> P r) (remdups (map f (filter M rs))))
   = length (remdups (map f (filter (\<lambda>r. M r \<and> P r) rs)))"
proof -
  have "distinct (filter (\<lambda>k. \<exists>r \<in> set rs. M r \<and> f r = k \<and> P r) (remdups (map f (filter M rs))))"
    by simp
  then have "length (filter (\<lambda>k. \<exists>r \<in> set rs. M r \<and> f r = k \<and> P r) (remdups (map f (filter M rs))))
     = card (set (filter (\<lambda>k. \<exists>r \<in> set rs. M r \<and> f r = k \<and> P r) (remdups (map f (filter M rs)))))"
    by (rule distinct_card[symmetric])
  also have "set (filter (\<lambda>k. \<exists>r \<in> set rs. M r \<and> f r = k \<and> P r) (remdups (map f (filter M rs))))
     = set (map f (filter (\<lambda>r. M r \<and> P r) rs))"
    by (auto simp: image_iff)
  finally show ?thesis by (simp add: length_remdups_card_conv)
qed

lemma calcSensitivity_eq:
  assumes ok: "selector_ok data sel" and bin: "binary_flags data (names_of sel)"
    and cols: "metric_columns data" and keys: "group_keys_present data"
  shows "calcSensitivity data sel =
     (if reportedNonAmbig data + reportedAmbig data = 0 then Inl ZeroDivisionError
      else Inr (round3 (truediv (int (nonAmbigTP data sel + ambigTP data sel))
                                (int (reportedNonAmbig data + reportedAmbig data)))))"
proof -
  let ?cs = "columns data" and ?rs = "rows data"
  have g: "group_columns data" and
    c: "''Reported'' \<in> set ?cs" "''Markush'' \<in> set ?cs" "''DTXSID'' \<in> set ?cs"
       "''Metabolite DTXSID'' \<in> set ?cs"
    using cols by (simp_all add: metric_columns_def group_columns_def)
  let ?P = "predicted data sel"
  let ?rep = "map (\<lambda>r. cell_at ?cs r ''Reported'') ?rs"
  let ?mk = "map (\<lambda>r. cell_at ?cs r ''Markush'') ?rs"
  let ?dt = "map (\<lambda>r. cell_at ?cs r ''DTXSID'') ?rs"
  let ?md = "map (\<lambda>r. cell_at ?cs r ''Metabolite DTXSID'') ?rs"
  have tnm: "sum_true (map (\<lambda>(f, r, k). f \<and> r \<and> \<not> k)
               (zip (map ?P ?rs) (zip (map eq1 ?rep) (map eq1 ?mk))))
             = int (nonAmbigTP data sel)"
    unfolding map_map zip3_map sum_true_map
    by (simp add: nonAmbigTP_def reported_def markush_def eq1_def comp_def)
  have rnm: "sum_true (map (\<lambda>(r, k). r \<and> \<not> k) (zip (map eq1 ?rep) (map eq1 ?mk)))
             = int (reportedNonAmbig data)"
    unfolding map_map zip_map_map sum_true_map
    by (simp add: reportedNonAmbig_def reported_def markush_def eq1_def comp_def)
  have tmp: "sumMarkParents data (map ?P ?rs) = Inr (int (ambigTP data sel))"
    unfolding sumMarkParents_pairs[OF g keys] ambig_count ambigTP_def by simp
  have sel: "map snd (filter (\<lambda>((r, k), p). r \<and> k)
               (zip (zip (map eq1 ?rep) (map eq1 ?mk)) (zip ?dt ?md)))
             = map (pair_of data) (filter (\<lambda>r. reported data r \<and> markush data r) ?rs)"
    unfolding map_map zip22_map
    by (induction ?rs rule: list.induct)
       (simp_all add: reported_def markush_def pair_of_def eq1_def comp_def filter_map)
  have rmp: "int (length (remdups (map snd (filter (\<lambda>((r, k), p). r \<and> k)
               (zip (zip (map eq1 ?rep) (map eq1 ?mk)) (zip ?dt ?md))))))
             = int (reportedAmbig data)"
    unfolding sel reportedAmbig_def by simp
  have nat_eq: "\<And>a b :: nat. (int a + int b = 0) = (a + b = 0)" by linarith
  show ?thesis
    unfolding calcSensitivity_def modelFilter_of_predicted[OF ok bin]
      getcol_Inr[OF c(1)] getcol_Inr[OF c(2)] getcol_Inr[OF c(3)] getcol_Inr[OF c(4)]
      sum.case Let_def tnm rnm tmp rmp nat_eq
    by simp
qed


lemma length_filter_split:
  "length (filter Q xs) = length (filter (\<lambda>x. P x \<and> Q x) xs) + length (filter (\<lambda>x. \<not> P x \<and> Q x) xs)"
  by (induction xs) auto

lemma filter_conj: "filter (\<lambda>x. P x \<and> Q x) xs = filter Q (filter P xs)"
  by (induction xs) auto

lemma scenario_counts:
  assumes sc: "sensitivity_scenario data sel"
  shows "nonAmbigTP data sel = 2" and "reportedNonAmbig data = 3"
    and "ambigTP data sel = 1" and "reportedAmbig data = 1"
proof -
  let ?P = "predicted data sel" and ?R = "reported data" and ?M = "markush data"
  have tp: "length (filter (\<lambda>r. ?P r \<and> ?R r \<and> \<not> ?M r) (rows data)) = 2"
    and fn: "length (filter (\<lambda>r. \<not> ?P r \<and> ?R r \<and> \<not> ?M r) (rows data)) = 1"
    using sc by (simp_all add: sensitivity_scenario_def)
  obtain a b c where m: "filter ?M (rows data) = [a, b, c]"
    and pr: "pair_of data a = pair_of data b" "pair_of data b = pair_of data c"
    and rp: "?R a" "?R b" "?R c"
    and one: "length (filter ?P [a, b, c]) = 1"
    using sc unfolding sensitivity_scenario_def
    by (auto split: list.splits)
  show "nonAmbigTP data sel = 2" using tp by (simp add: nonAmbigTP_def)
  show "reportedNonAmbig data = 3"
    unfolding reportedNonAmbig_def
    using length_filter_split[of "\<lambda>r. ?R r \<and> \<not> ?M r" "rows data" ?P] tp fn by simp
  have "filter (\<lambda>r. ?M r \<and> ?P r) (rows data) = filter ?P [a, b, c]"
    by (simp add: filter_conj m)
  moreover have "length (remdups (map (pair_of data) (filter ?P [a, b, c]))) = 1"
    using one pr by (auto split: if_splits)
  ultimately show "ambigTP data sel = 1" by (simp add: ambigTP_def)
  have "filter (\<lambda>r. ?R r \<and> ?M r) (rows data) = filter ?R [a, b, c]"
    using filter_conj[of ?M ?R "rows data"] m by (simp add: conj_commute)
  then show "reportedAmbig data = 1"
    using rp pr by (simp add: reportedAmbig_def)
qed

text \<open>
  C1. Sensitivity is Python's \<^verbatim>\<open>round(., 3)\<close> of the quotient of the non-ambiguous plus
  the ambiguous true positives by the reported non-ambiguous rows plus the reported
  ambiguous pairs: to the precision of a double, a multiple of 1/1000 within half a
  thousandth of that quotient. For a table with two non-ambiguous reported true
  positives, one non-ambiguous reported false negative and one Markush group of three
  reported rows sharing one pair, exactly one of them predicted, it is 0.75.
\<close>

theorem calcSensitivity_spec:
  assumes "selector_ok data sel" and "binary_flags data (names_of sel)"
    and "metric_columns data" and "group_keys_present data"
  shows "(reportedNonAmbig data + reportedAmbig data \<noteq> 0 \<longrightarrow>
            (\<exists>r. calcSensitivity data sel = Inr r \<and>
               r = round3 (truediv (int (nonAmbigTP data sel + ambigTP data sel))
                                   (int (reportedNonAmbig data + reportedAmbig data))) \<and>
               rounded_to_3 (of_nat (nonAmbigTP data sel + ambigTP data sel)
                             / of_nat (reportedNonAmbig data + reportedAmbig data)) r))
         \<and> (sensitivity_scenario data sel \<longrightarrow> calcSensitivity data sel = Inr (3 / 4))"
proof (intro conjI impI)
  let ?n = "nonAmbigTP data sel + ambigTP data sel"
  let ?d = "reportedNonAmbig data + reportedAmbig data"
  assume d: "?d \<noteq> 0"
  then have "0 < int ?d" by linarith
  then have "rounded_to_3 (of_int (int ?n) / of_int (int ?d)) (round3 (truediv (int ?n) (int ?d)))"
    by (intro round3_truediv_rounded) simp_all
  then show "\<exists>r. calcSensitivity data sel = Inr r \<and>
               r = round3 (truediv (int ?n) (int ?d)) \<and>
               rounded_to_3 (of_nat ?n / of_nat ?d) r"
    using calcSensitivity_eq[OF assms] d by simp
next
  assume sc: "sensitivity_scenario data sel"
  show "calcSensitivity data sel = Inr (3 / 4)"
    unfolding calcSensitivity_eq[OF assms] scenario_counts[OF sc]
    by (simp add: round3_three_quarters)
qed

lemma ex_data_rows:
  "rows ex_data = [[Str ''P1'', Str ''M1'', Num 0, Num 1, Num 1, Num 0, Num 0],
             [Str ''P1'', Str ''M2'', Num 0, Num 1, Num 0, Num 1, Num 0],
             [Str ''P1'', Str ''M3'', Num 0, Num 1, Num 0, Num 0, Num 0],
             [Str ''P2'', Str ''G1'', Num 1, Num 1, Num 0, Num 0, Num 0],
             [Str ''P2'', Str ''G1'', Num 1, Num 1, Num 1, Num 0, Num 0],
             [Str ''P2'', Str ''G1'', Num 1, Num 1, Num 0, Num 0, Num 0],
             [Str ''P2'', Num 0, Num 0, Num 0, Num 1, Num 1, Num 0]]"
  and ex_data_columns:
  "columns ex_data = [''DTXSID'', ''Metabolite DTXSID'', ''Markush'', ''Reported'',
             ''ToolBox'', ''Meteor'', ''TIMES'']"
  by (simp_all add: ex_data_def)

lemmas ex_simps = ex_data_rows ex_data_columns cell_at_def selector_ok_def names_of_def
  binary_flags_def metric_columns_def group_columns_def group_keys_present_def
  markush_def pair_of_def predicted_def reported_def

theorem calcSensitivity_spec_witness:
  "sensitivity_scenario ex_data (Multi [''ToolBox'', ''Meteor'']) \<and>
   calcSensitivity ex_data (Multi [''ToolBox'', ''Meteor'']) = Inr (3 / 4) \<and>
   calcSensitivity s80 (Single ''A'') = Inr (5332261958806667 / 144115188075855872)"
proof -
  let ?m = "Multi [''ToolBox'', ''Meteor'']"
  have ok: "selector_ok ex_data ?m" by (simp add: ex_simps)
  have bin: "binary_flags ex_data (names_of ?m)" by (simp add: ex_simps)
  have cols: "metric_columns ex_data" by (simp add: ex_simps)
  have keys: "group_keys_present ex_data" by (simp add: ex_simps)
  have sc: "sensitivity_scenario ex_data ?m"
    by (simp add: sensitivity_scenario_def ex_simps)
  have a: "calcSensitivity ex_data ?m = Inr (3 / 4)"
    using calcSensitivity_spec[OF ok bin cols keys] sc by simp
  note s80_simps = s80_def cell_at_def selector_ok_def names_of_def binary_flags_def
    metric_columns_def group_columns_def group_keys_present_def markush_def pair_of_def
    predicted_def reported_def
  have ok': "selector_ok s80 (Single ''A'')" by (simp add: s80_simps)
  have bin': "binary_flags s80 (names_of (Single ''A''))"
    by (auto simp: s80_simps list_all_iff)
  have cols': "metric_columns s80" by (simp add: s80_simps)
  have keys': "group_keys_present s80" by (simp add: s80_simps list_all_iff)
  have n: "nonAmbigTP s80 (Single ''A'') = 3" "ambigTP s80 (Single ''A'') = 0"
    "reportedNonAmbig s80 = 80" "reportedAmbig s80 = 0"
    by (simp_all add: nonAmbigTP_def ambigTP_def reportedNonAmbig_def reportedAmbig_def
        s80_simps)
  have b: "calcSensitivity s80 (Single ''A'') = Inr (5332261958806667 / 144115188075855872)"
    using calcSensitivity_spec[OF ok' bin' cols' keys'] by (auto simp: n round3_three_of_80)
  show ?thesis using sc a b by simp
qed

theorem sumMarkParents_spec_witness:
  "\<exists>mf. modelFilter_of ex_data (Single ''ToolBox'') = Inr mf \<and>
         sumMarkParents ex_data mf = Inr 1"
proof -
  let ?s = "Single ''ToolBox''"
  have ok: "selector_ok ex_data ?s" by (simp add: ex_simps)
  have bin: "binary_flags ex_data (names_of ?s)" by (simp add: ex_simps)
  have cols: "group_columns ex_data" by (simp add: ex_simps)
  have keys: "group_keys_present ex_data" by (simp add: ex_simps)
  from sumMarkParents_spec[OF ok bin cols keys] show ?thesis
    by (simp add: ex_simps)
qed


section \<open>Properties of the aggregator\<close>

lemma columns_drop_duplicates [simp]: "columns (drop_duplicates df) = columns df"
  by (simp add: drop_duplicates_def)

lemma columns_replace_nan [simp]: "columns (replace_nan df) = columns df"
  by (simp add: replace_nan_def)

lemma set_rows_drop_duplicates [simp]: "set (rows (drop_duplicates df)) = set (rows df)"
  by (simp add: drop_duplicates_def)

lemma distinct_rows_drop_duplicates [simp]: "distinct (rows (drop_duplicates df))"
  by (simp add: drop_duplicates_def)

lemma rows_replace_nan [simp]: "rows (replace_nan df) = map (map fill0) (rows df)"
  by (simp add: replace_nan_def)

lemma merge_cong:
  assumes "columns L' = columns L" and "set (rows L') = set (rows L)"
  shows "(\<exists>e. merge L R on hw = Inl e \<and> merge L' R on hw = Inl e) \<or>
         (\<exists>m m'. merge L R on hw = Inr m \<and> merge L' R on hw = Inr m' \<and>
            columns m' = columns m \<and> set (rows m') = set (rows m))"
proof -
  have mr: "matched_rows on hw L' R = matched_rows on hw L R"
    by (simp add: matched_rows_def fun_eq_iff assms(1))
  have ro: "right_only_rows on hw L' R = right_only_rows on hw L R"
    by (simp add: right_only_rows_def assms)
  show ?thesis
    by (simp add: merge_def assms mr ro)
qed

lemma no_clean_drop_excluded: "''Clean_SMILES'' \<notin> set (columns (drop_excluded df))"
  by (auto simp: drop_excluded_def drop_columns_def excludedColumns_def)

lemma drop_excluded_id: "''Clean_SMILES'' \<notin> set (columns df) \<Longrightarrow> drop_excluded df = df"
  by (simp add: drop_excluded_def drop_columns_def excludedColumns_def)

lemma suffixed_not_clean:
  assumes "c \<noteq> ''Clean_SMILES''" and "sfx = ''_x'' \<or> sfx = ''_y''"
  shows "suffixed on other sfx c \<noteq> ''Clean_SMILES''"
proof -
  have "last (c @ sfx) \<noteq> last ''Clean_SMILES''" using assms(2) by auto
  then have "c @ sfx \<noteq> ''Clean_SMILES''" by metis
  then show ?thesis using assms(1) by (simp add: suffixed_def)
qed

lemma no_clean_merged:
  assumes "''Clean_SMILES'' \<notin> set lc" and "''Clean_SMILES'' \<notin> set rc"
  shows "''Clean_SMILES'' \<notin> set (merged_columns on lc rc)"
proof
  assume "''Clean_SMILES'' \<in> set (merged_columns on lc rc)"
  then obtain c sfx other where "c \<in> set lc \<or> c \<in> set rc"
    and "sfx = ''_x'' \<or> sfx = ''_y''" and "''Clean_SMILES'' = suffixed on other sfx c"
    by (auto simp: merged_columns_def)
  moreover from this have "c \<noteq> ''Clean_SMILES''" using assms by auto
  ultimately show False using suffixed_not_clean by metis
qed

lemma merge_columns: "merge L R on hw = Inr m \<Longrightarrow> columns m = merged_columns on (columns L) (columns R)"
  by (auto simp: merge_def split: if_splits)

text \<open>
  C6. Aggregating three tables at once and aggregating the aggregate of the first two
  with the third end alike: with the same error, or with tables that have the same
  columns and the same rows up to their order.
\<close>

theorem aggregate_assoc:
  "same_table (aggregate_DFs [A, B, C] arg_on arg_how) (aggregate_nested A B C arg_on arg_how)"
proof (cases "merge (drop_excluded A) (drop_excluded B) arg_on arg_how")
  case (Inl e)
  then show ?thesis by (simp add: same_table_def aggregate_nested_def)
next
  case (Inr m1)
  let ?X = "replace_nan m1" and ?C = "drop_excluded C"
  have nc: "''Clean_SMILES'' \<notin> set (columns (drop_duplicates ?X))"
    using merge_columns[OF Inr] no_clean_merged[OF no_clean_drop_excluded no_clean_drop_excluded]
    by simp
  have nested: "aggregate_nested A B C arg_on arg_how =
      (case merge (drop_duplicates ?X) ?C arg_on arg_how of
         Inl e \<Rightarrow> Inl e
       | Inr m \<Rightarrow> Inr (Some (drop_duplicates (replace_nan m))))"
    by (simp add: aggregate_nested_def Inr drop_excluded_id[OF nc] split: sum.splits)
  have flat: "aggregate_DFs [A, B, C] arg_on arg_how =
      (case merge ?X ?C arg_on arg_how of
         Inl e \<Rightarrow> Inl e
       | Inr m \<Rightarrow> Inr (Some (drop_duplicates (replace_nan m))))"
    by (simp add: Inr split: sum.splits)
  from merge_cong[of "drop_duplicates ?X" ?X ?C arg_on arg_how]
  consider (err) e where "merge ?X ?C arg_on arg_how = Inl e"
      "merge (drop_duplicates ?X) ?C arg_on arg_how = Inl e"
    | (ok) m m' where "merge ?X ?C arg_on arg_how = Inr m"
      "merge (drop_duplicates ?X) ?C arg_on arg_how = Inr m'"
      "columns m' = columns m" "set (rows m') = set (rows m)"
    by auto
  then show ?thesis
  proof cases
    case err
    then show ?thesis unfolding flat nested by (simp add: same_table_def)
  next
    case ok
    let ?a = "drop_duplicates (replace_nan m)" and ?b = "drop_duplicates (replace_nan m')"
    have s: "set (rows ?a) = set (rows ?b)" using ok(4) by simp
    have "card (set (rows ?a)) = length (rows ?a)" "card (set (rows ?b)) = length (rows ?b)"
      by (simp_all add: distinct_card del: set_rows_drop_duplicates)
    then have "length (rows ?a) = length (rows ?b)" using s by simp
    then show ?thesis using ok s unfolding flat nested by (simp add: same_table_def)
  qed
qed


theorem aggregate_assoc_witness:
  "\<exists>a b. aggregate_DFs [tA, tB, tC] arg_on_default Outer = Inr (Some a) \<and>
         aggregate_nested tA tB tC arg_on_default Outer = Inr (Some b) \<and>
         columns a = columns b \<and> set (rows a) = set (rows b) \<and>
         length (rows a) = 4"
proof -
  have flat: "aggregate_DFs [tA, tB, tC] arg_on_default Outer = Inr (Some
       \<lparr>columns = [''DTXSID'', ''Metabolite_INCHIKEY'', ''ToolBox_x'', ''Meteor'',
           ''Formula'', ''ToolBox_y''],
        rows = [[Str ''P1'', Str ''K1'', Num 1, Num 1, Str ''C2H6O'', Num 1],
             [Str ''P1'', Str ''K2'', Num 1, Num 0, Num 0, Num 0],
             [Str ''P2'', Str ''K3'', Num 0, Num 1, Num 0, Num 0],
             [Str ''P3'', Str ''K3'', Num 0, Num 0, Str ''CH4'', Num 1]]\<rparr>)"
    by (simp add: tA_def tB_def tC_def arg_on_default_def merge_def merged_columns_def
        suffixed_def matched_rows_def right_only_rows_def key_of_def others_of_def cell_at_def
        drop_excluded_def drop_columns_def excludedColumns_def replace_nan_def fill0_def
        drop_duplicates_def)
  show ?thesis
    using aggregate_assoc[of tA tB tC arg_on_default Outer]
    unfolding flat same_table_def
    by (auto split: sum.splits option.splits)
qed

text \<open>
  C5. Given fewer than two tables, \<open>aggregate_DFs\<close> and \<open>aggregate_DFs_extended\<close>
  return nothing and raise nothing.
\<close>

theorem aggregate_too_few:
  "length DF_List < 2 \<Longrightarrow>
     aggregate_DFs DF_List arg_on arg_how = Inr None \<and>
     aggregate_DFs_extended rd DF_List arg_on arg_how = Inr None"
proof -
  assume "length DF_List < 2"
  then consider "DF_List = []" | d where "DF_List = [d]"
    by (cases DF_List; cases "tl DF_List") auto
  then show ?thesis by cases simp_all
qed

theorem aggregate_too_few_witness:
  "aggregate_DFs [] arg_on_default Outer = Inr None \<and>
   aggregate_DFs [tA] arg_on_default Outer = Inr None \<and>
   aggregate_DFs_extended toy_rdkit [tA] arg_on_default Outer = Inr None"
  using aggregate_too_few[of "[]" arg_on_default Outer toy_rdkit]
    aggregate_too_few[of "[tA]" arg_on_default Outer toy_rdkit]
  by simp


lemma cell_at_append_left:
  "length xs = length vs \<Longrightarrow> k \<in> set xs \<Longrightarrow> cell_at (xs @ ys) (vs @ ws) k = cell_at xs vs k"
proof -
  assume l: "length xs = length vs" and k: "k \<in> set xs"
  then have "k \<in> dom (map_of (zip xs vs))" by simp
  then obtain v where "map_of (zip xs vs) k = Some v" by blast
  then show ?thesis using l by (simp add: cell_at_def map_add_Some_iff)
qed

lemma cell_at_append_right:
  "length xs = length vs \<Longrightarrow> k \<notin> set xs \<Longrightarrow> cell_at (xs @ ys) (vs @ ws) k = cell_at ys ws k"
proof -
  assume l: "length xs = length vs" and k: "k \<notin> set xs"
  then have "k \<notin> fst ` set (zip xs vs)" by (auto dest: set_zip_leftD)
  then have n: "map_of (zip xs vs) k = None" by (simp add: map_of_eq_None_iff)
  show ?thesis using l by (simp add: cell_at_def map_add_def n)
qed

lemma cell_at_map_inj:
  "length xs = length vs \<Longrightarrow> distinct (map f xs) \<Longrightarrow> x \<in> set xs \<Longrightarrow>
     cell_at (map f xs) vs (f x) = cell_at xs vs x"
proof (induction xs vs rule: list_induct2)
  case Nil
  then show ?case by simp
next
  case (Cons y ys v vs)
  show ?case
  proof (cases "x = y")
    case True
    then show ?thesis by (simp add: cell_at_def)
  next
    case False
    with Cons.prems have "x \<in> set ys" and "f y \<noteq> f x" by auto
    with Cons show ?thesis using False by (simp add: cell_at_def)
  qed
qed

lemma cell_at_map_values: "x \<in> set xs \<Longrightarrow> cell_at xs (map g xs) x = g x"
  by (induction xs) (auto simp: cell_at_def)

lemma cell_at_map_cells:
  "length xs = length vs \<Longrightarrow> k \<in> set xs \<Longrightarrow> cell_at xs (map h vs) k = h (cell_at xs vs k)"
  by (induction xs vs rule: list_induct2) (auto simp: cell_at_def)

lemma cell_at_replicate: "k \<in> set xs \<Longrightarrow> cell_at xs (replicate (length xs) z) k = z"
  by (induction xs) (auto simp: cell_at_def)

lemma cell_at_filter:
  "length xs = length vs \<Longrightarrow> P k \<Longrightarrow>
     cell_at (filter P xs) (map snd (filter (\<lambda>(c, v). P c) (zip xs vs))) k = cell_at xs vs k"
  by (induction xs vs rule: list_induct2) (auto simp: cell_at_def)

lemma length_filter_zip:
  "length xs = length vs \<Longrightarrow>
     length (filter (\<lambda>(c, v). P c) (zip xs vs)) = length (filter P xs)"
  by (induction xs vs rule: list_induct2) auto

lemma aligned_row: "aligned df \<Longrightarrow> r \<in> set (rows df) \<Longrightarrow> length r = length (columns df)"
  by (simp add: aligned_def list_all_iff)

lemma aligned_drop_excluded: "aligned df \<Longrightarrow> aligned (drop_excluded df)"
  by (auto simp: drop_excluded_def drop_columns_def aligned_def list_all_iff length_filter_zip)

lemma columns_drop_excluded:
  "columns (drop_excluded df) = filter (\<lambda>c. c \<noteq> ''Clean_SMILES'') (columns df)"
proof (cases "''Clean_SMILES'' \<in> set (columns df)")
  case True
  then show ?thesis by (simp add: drop_excluded_def drop_columns_def excludedColumns_def)
next
  case False
  then have "filter (\<lambda>c. c \<noteq> ''Clean_SMILES'') (columns df) = columns df"
    by (simp add: filter_id_conv) metis
  then show ?thesis using False by (simp add: drop_excluded_id)
qed

lemma key_drop_excluded:
  assumes "aligned df" and "''Clean_SMILES'' \<notin> set on"
  shows "map (key_of on (columns (drop_excluded df))) (rows (drop_excluded df))
         = map (key_of on (columns df)) (rows df)"
proof (cases "''Clean_SMILES'' \<in> set (columns df)")
  case False
  then show ?thesis by (simp add: drop_excluded_id)
next
  case True
  have "\<And>r k. r \<in> set (rows df) \<Longrightarrow> k \<in> set on \<Longrightarrow>
      cell_at (filter (\<lambda>c. c \<noteq> ''Clean_SMILES'') (columns df))
        (map snd (filter (\<lambda>(c, v). c \<noteq> ''Clean_SMILES'') (zip (columns df) r))) k
      = cell_at (columns df) r k"
    using assms by (intro cell_at_filter) (auto simp: aligned_row)
  then show ?thesis using True
    by (simp add: drop_excluded_def drop_columns_def excludedColumns_def key_of_def)
qed


lemma concat_singletons: "concat (map (\<lambda>x. [f x]) xs) = map f xs"
  by (induction xs) auto

lemma merge_disjoint:
  assumes keys: "list_all (\<lambda>k. k \<in> set (columns L) \<and> k \<in> set (columns R)) on"
    and disj: "set (map (key_of on (columns L)) (rows L)) \<inter>
               set (map (key_of on (columns R)) (rows R)) = {}"
  shows "merge L R on Outer =
     Inr \<lparr>columns = merged_columns on (columns L) (columns R),
          rows = map (\<lambda>l. l @ replicate (length (filter (\<lambda>c. c \<notin> set on) (columns R))) NaN)
                   (rows L)
               @ map (\<lambda>r. map (\<lambda>c. if c \<in> set on then cell_at (columns R) r c else NaN)
                             (columns L)
                         @ others_of on (columns R) r)
                   (rows R)\<rparr>"
proof -
  have m: "\<And>l. l \<in> set (rows L) \<Longrightarrow> matched_rows on Outer L R l =
      [l @ replicate (length (filter (\<lambda>c. c \<notin> set on) (columns R))) NaN]"
  proof -
    fix l assume l: "l \<in> set (rows L)"
    have "filter (\<lambda>r. key_of on (columns R) r = key_of on (columns L) l) (rows R) = []"
      using disj l by (auto simp: filter_empty_conv)
    then show "matched_rows on Outer L R l =
      [l @ replicate (length (filter (\<lambda>c. c \<notin> set on) (columns R))) NaN]"
      by (simp add: matched_rows_def)
  qed
  have "map (matched_rows on Outer L R) (rows L) =
        map (\<lambda>l. [l @ replicate (length (filter (\<lambda>c. c \<notin> set on) (columns R))) NaN]) (rows L)"
    using m by simp
  then have c: "concat (map (matched_rows on Outer L R) (rows L)) =
        map (\<lambda>l. l @ replicate (length (filter (\<lambda>c. c \<notin> set on) (columns R))) NaN) (rows L)"
    by (simp only: concat_singletons)
  have f: "filter (\<lambda>r. key_of on (columns R) r \<notin> set (map (key_of on (columns L)) (rows L)))
             (rows R) = rows R"
    using disj by (auto simp: filter_id_conv)
  show ?thesis
    unfolding merge_def right_only_rows_def c f using keys by simp
qed


lemma suffixed_key: "k \<in> set on \<Longrightarrow> suffixed on other sfx k = k"
  by (simp add: suffixed_def)

lemma left_row_key:
  assumes d: "distinct (merged_columns on lc rc)" and len: "length l = length lc"
    and k: "k \<in> set on" "k \<in> set lc"
  shows "cell_at (merged_columns on lc rc) (map fill0 (l @ pad)) k = fill0 (cell_at lc l k)"
proof -
  let ?sx = "suffixed on rc ''_x''"
  have dx: "distinct (map ?sx lc)" using d by (simp add: merged_columns_def)
  have "cell_at (merged_columns on lc rc) (map fill0 (l @ pad)) k
        = cell_at (map ?sx lc) (map fill0 l) (?sx k)"
    unfolding merged_columns_def map_append
    using k len by (subst cell_at_append_left) (auto simp: suffixed_key intro: rev_image_eqI)
  also have "\<dots> = cell_at lc (map fill0 l) k"
    using len dx k by (intro cell_at_map_inj) simp_all
  also have "\<dots> = fill0 (cell_at lc l k)"
    using len k by (intro cell_at_map_cells) simp_all
  finally show ?thesis .
qed

lemma left_row_zero:
  assumes d: "distinct (merged_columns on lc rc)" and len: "length l = length lc"
    and c: "c \<in> set (filter (\<lambda>c. c \<notin> set on) rc)"
  shows "cell_at (merged_columns on lc rc)
           (map fill0 (l @ replicate (length (filter (\<lambda>c. c \<notin> set on) rc)) NaN))
           (suffixed on lc ''_y'' c) = Num 0"
proof -
  let ?sx = "suffixed on rc ''_x''" and ?sy = "suffixed on lc ''_y''"
  let ?nk = "filter (\<lambda>c. c \<notin> set on) rc"
  have "?sy c \<in> ?sy ` set ?nk" using c by (rule imageI)
  then have "?sy c \<in> set (map ?sy ?nk)" by (simp only: set_map)
  moreover have "set (map ?sx lc) \<inter> set (map ?sy ?nk) = {}"
    using d by (simp add: merged_columns_def)
  ultimately have notin: "?sy c \<notin> set (map ?sx lc)" by blast
  have "cell_at (merged_columns on lc rc) (map fill0 (l @ replicate (length ?nk) NaN)) (?sy c)
        = cell_at (map ?sy ?nk) (map fill0 (replicate (length ?nk) NaN)) (?sy c)"
    unfolding merged_columns_def map_append
    using len notin by (intro cell_at_append_right) simp_all
  also have "\<dots> = cell_at (map ?sy ?nk) (replicate (length (map ?sy ?nk)) (Num 0)) (?sy c)"
    by (simp add: fill0_def)
  also have "\<dots> = Num 0"
    using \<open>?sy c \<in> set (map ?sy ?nk)\<close> by (rule cell_at_replicate)
  finally show ?thesis .
qed

lemma right_row_cell:
  assumes d: "distinct (merged_columns on lc rc)" and c: "c \<in> set lc"
  shows "cell_at (merged_columns on lc rc)
           (map fill0 (map (\<lambda>c. if c \<in> set on then cell_at rc r c else NaN) lc @ tl'))
           (suffixed on rc ''_x'' c)
         = (if c \<in> set on then fill0 (cell_at rc r c) else Num 0)"
proof -
  let ?sx = "suffixed on rc ''_x''"
  let ?g = "\<lambda>c. fill0 (if c \<in> set on then cell_at rc r c else NaN)"
  have dx: "distinct (map ?sx lc)" using d by (simp add: merged_columns_def)
  have "cell_at (merged_columns on lc rc)
           (map fill0 (map (\<lambda>c. if c \<in> set on then cell_at rc r c else NaN) lc @ tl')) (?sx c)
        = cell_at (map ?sx lc) (map ?g lc) (?sx c)"
    unfolding merged_columns_def map_append map_map comp_def
    using c by (intro cell_at_append_left) simp_all
  also have "\<dots> = cell_at lc (map ?g lc) c"
    using dx c by (intro cell_at_map_inj) simp_all
  also have "\<dots> = ?g c" using c by (rule cell_at_map_values)
  finally show ?thesis by (simp add: fill0_def)
qed


lemma drop_duplicates_distinct: "distinct (rows df) \<Longrightarrow> drop_duplicates df = df"
  by (simp add: drop_duplicates_def distinct_remdups_id)

lemma aggregate_disjoint_rows:
  assumes al: "aligned A" "aligned B" and hk: "has_keys A" "has_keys B"
    and dm: "distinct_merged A B"
    and dk: "distinct (map (filled_key A) (rows A) @ map (filled_key B) (rows B))"
  defines "on \<equiv> arg_on_default"
  defines "lc \<equiv> columns (drop_excluded A)" and "rc \<equiv> columns (drop_excluded B)"
  defines "RA \<equiv> map (\<lambda>l. map fill0 (l @ replicate (length (filter (\<lambda>c. c \<notin> set on) rc)) NaN))
                   (rows (drop_excluded A))"
  defines "RB \<equiv> map (\<lambda>r. map fill0 (map (\<lambda>c. if c \<in> set on then cell_at rc r c else NaN) lc
                                    @ others_of on rc r))
                   (rows (drop_excluded B))"
  shows "aggregate [A, B] = Inr (Some \<lparr>columns = merged_columns on lc rc, rows = RA @ RB\<rparr>)"
    and "map (key_of on (merged_columns on lc rc)) RA = map (filled_key A) (rows A)"
    and "map (key_of on (merged_columns on lc rc)) RB = map (filled_key B) (rows B)"
    and "\<forall>\<rho> \<in> set RA. \<forall>c \<in> set (flag_columns B).
           cell_at (merged_columns on lc rc) \<rho> (name_right A c) = Num 0"
    and "\<forall>\<rho> \<in> set RB. \<forall>c \<in> set (flag_columns A).
           cell_at (merged_columns on lc rc) \<rho> (name_left B c) = Num 0"
proof -
  let ?L = "drop_excluded A" and ?R = "drop_excluded B"
  let ?mc = "merged_columns on lc rc"
  have nc: "''Clean_SMILES'' \<notin> set on" by (simp add: on_def arg_on_default_def)
  have aL: "aligned ?L" and aR: "aligned ?R" using al by (simp_all add: aligned_drop_excluded)
  have onL: "set on \<subseteq> set lc" and onR: "set on \<subseteq> set rc"
    using hk nc by (auto simp: has_keys_def list_all_iff lc_def rc_def on_def columns_drop_excluded)
  have d: "distinct ?mc" using dm by (simp add: distinct_merged_def on_def lc_def rc_def)
  have kA: "map (key_of on lc) (rows ?L) = map (key_of on (columns A)) (rows A)"
    unfolding lc_def using al(1) nc by (rule key_drop_excluded)
  have kB: "map (key_of on rc) (rows ?R) = map (key_of on (columns B)) (rows B)"
    unfolding rc_def using al(2) nc by (rule key_drop_excluded)
  have fA: "map (filled_key A) (rows A) = map (map fill0) (map (key_of on lc) (rows ?L))"
    unfolding kA by (simp add: filled_key_def on_def)
  have fB: "map (filled_key B) (rows B) = map (map fill0) (map (key_of on rc) (rows ?R))"
    unfolding kB by (simp add: filled_key_def on_def)
  show keyA: "map (key_of on ?mc) RA = map (filled_key A) (rows A)"
    unfolding fA RA_def map_map comp_def
  proof (rule map_cong[OF refl])
    fix l assume l: "l \<in> set (rows ?L)"
    then have len: "length l = length lc" using aL by (simp add: aligned_row lc_def)
    show "key_of on ?mc (map fill0 (l @ replicate (length (filter (\<lambda>c. c \<notin> set on) rc)) NaN))
          = map fill0 (key_of on lc l)"
      unfolding key_of_def map_map comp_def
      using onL by (intro map_cong[OF refl] left_row_key[OF d len]) auto
  qed
  show keyB: "map (key_of on ?mc) RB = map (filled_key B) (rows B)"
    unfolding fB RB_def map_map comp_def
  proof (rule map_cong[OF refl])
    fix r assume "r \<in> set (rows ?R)"
    show "key_of on ?mc (map fill0 (map (\<lambda>c. if c \<in> set on then cell_at rc r c else NaN) lc
                                    @ others_of on rc r))
          = map fill0 (key_of on rc r)"
      unfolding key_of_def map_map comp_def
    proof (rule map_cong[OF refl])
      fix k assume k: "k \<in> set on"
      then have "k \<in> set lc" using onL by auto
      from right_row_cell[OF d this, of r "others_of on rc r"] k
      show "cell_at ?mc (map fill0 (map (\<lambda>c. if c \<in> set on then cell_at rc r c else NaN) lc
                                    @ others_of on rc r)) k = fill0 (cell_at rc r k)"
        by (simp add: suffixed_key)
    qed
  qed
  show "\<forall>\<rho> \<in> set RA. \<forall>c \<in> set (flag_columns B). cell_at ?mc \<rho> (name_right A c) = Num 0"
  proof (intro ballI)
    fix \<rho> c assume "\<rho> \<in> set RA" and c: "c \<in> set (flag_columns B)"
    then obtain l where l: "l \<in> set (rows ?L)"
      and \<rho>: "\<rho> = map fill0 (l @ replicate (length (filter (\<lambda>c. c \<notin> set on) rc)) NaN)"
      by (auto simp: RA_def)
    have len: "length l = length lc" using aL l by (simp add: aligned_row lc_def)
    have c': "c \<in> set (filter (\<lambda>c. c \<notin> set on) rc)"
      using c by (simp add: flag_columns_def on_def rc_def)
    show "cell_at ?mc \<rho> (name_right A c) = Num 0"
      unfolding \<rho> name_right_def using left_row_zero[OF d len c']
      by (simp add: on_def lc_def)
  qed
  show "\<forall>\<rho> \<in> set RB. \<forall>c \<in> set (flag_columns A). cell_at ?mc \<rho> (name_left B c) = Num 0"
  proof (intro ballI)
    fix \<rho> c assume "\<rho> \<in> set RB" and c: "c \<in> set (flag_columns A)"
    then obtain r where
      \<rho>: "\<rho> = map fill0 (map (\<lambda>c. if c \<in> set on then cell_at rc r c else NaN) lc
                            @ others_of on rc r)"
      by (auto simp: RB_def)
    have c': "c \<in> set lc" "c \<notin> set on"
      using c by (simp_all add: flag_columns_def on_def lc_def)
    show "cell_at ?mc \<rho> (name_left B c) = Num 0"
      unfolding \<rho> name_left_def using right_row_cell[OF d c'(1), of r "others_of on rc r"] c'(2)
      by (simp add: on_def rc_def)
  qed
  have dkeys: "distinct (map (key_of on ?mc) (RA @ RB))"
    using dk by (simp only: map_append keyA keyB)
  then have dist: "distinct (RA @ RB)" by (simp only: distinct_map)
  have disj: "set (map (key_of on lc) (rows ?L)) \<inter> set (map (key_of on rc) (rows ?R)) = {}"
  proof (rule ccontr)
    assume "\<not> ?thesis"
    then obtain k where "k \<in> set (map (key_of on lc) (rows ?L))"
      "k \<in> set (map (key_of on rc) (rows ?R))" by blast
    then have "map fill0 k \<in> set (map (filled_key A) (rows A))"
      "map fill0 k \<in> set (map (filled_key B) (rows B))"
      unfolding fA fB by force+
    with dk show False by auto
  qed
  have keys: "list_all (\<lambda>k. k \<in> set (columns ?L) \<and> k \<in> set (columns ?R)) on"
    using onL onR by (auto simp: list_all_iff lc_def rc_def)
  have m: "merge ?L ?R on Outer =
     Inr \<lparr>columns = ?mc,
          rows = map (\<lambda>l. l @ replicate (length (filter (\<lambda>c. c \<notin> set on) rc)) NaN) (rows ?L)
               @ map (\<lambda>r. map (\<lambda>c. if c \<in> set on then cell_at rc r c else NaN) lc
                         @ others_of on rc r) (rows ?R)\<rparr>"
    using merge_disjoint[OF keys] disj by (simp add: lc_def rc_def)
  have "aggregate [A, B] = Inr (Some (drop_duplicates \<lparr>columns = ?mc, rows = RA @ RB\<rparr>))"
    by (simp add: aggregate_def m[unfolded on_def] replace_nan_def RA_def RB_def on_def comp_def)
  then show "aggregate [A, B] = Inr (Some \<lparr>columns = ?mc, rows = RA @ RB\<rparr>)"
    using dist by (simp add: drop_duplicates_distinct)
qed


lemmas aggregate_simps = aggregate_def arg_on_default_def merge_def merged_columns_def
  suffixed_def matched_rows_def right_only_rows_def key_of_def others_of_def cell_at_def
  drop_excluded_def drop_columns_def excludedColumns_def replace_nan_def fill0_def
  drop_duplicates_def

lemma aggregate_disjoint_filled:
  assumes "aligned A" and "aligned B" and "has_keys A" and "has_keys B"
    and "distinct_merged A B"
    and "distinct (map (filled_key A) (rows A) @ map (filled_key B) (rows B))"
  shows "\<exists>df. aggregate [A, B] = Inr (Some df) \<and>
     length (rows df) = length (rows A) + length (rows B) \<and>
     distinct (map (key_of arg_on_default (columns df)) (rows df)) \<and>
     set (map (key_of arg_on_default (columns df)) (rows df))
       = set (map (filled_key A) (rows A)) \<union> set (map (filled_key B) (rows B)) \<and>
     (\<forall>r \<in> set (rows df).
        (key_of arg_on_default (columns df) r \<in> set (map (filled_key A) (rows A)) \<longrightarrow>
           (\<forall>c \<in> set (flag_columns B). cell_at (columns df) r (name_right A c) = Num 0)) \<and>
        (key_of arg_on_default (columns df) r \<in> set (map (filled_key B) (rows B)) \<longrightarrow>
           (\<forall>c \<in> set (flag_columns A). cell_at (columns df) r (name_left B c) = Num 0)))"
proof -
  note F = aggregate_disjoint_rows[OF assms]
  let ?on = arg_on_default
  let ?KA = "map (filled_key A) (rows A)" and ?KB = "map (filled_key B) (rows B)"
  obtain mc RA RB where agg: "aggregate [A, B] = Inr (Some \<lparr>columns = mc, rows = RA @ RB\<rparr>)"
    and kA: "map (key_of ?on mc) RA = ?KA" and kB: "map (key_of ?on mc) RB = ?KB"
    and zA: "\<forall>\<rho> \<in> set RA. \<forall>c \<in> set (flag_columns B). cell_at mc \<rho> (name_right A c) = Num 0"
    and zB: "\<forall>\<rho> \<in> set RB. \<forall>c \<in> set (flag_columns A). cell_at mc \<rho> (name_left B c) = Num 0"
    using F by blast
  have disj: "set ?KA \<inter> set ?KB = {}" using assms(6) by simp
  have len: "length (RA @ RB) = length (rows A) + length (rows B)"
    using arg_cong[OF kA, of length] arg_cong[OF kB, of length] by simp
  have keys: "map (key_of ?on mc) (RA @ RB) = ?KA @ ?KB" by (simp add: kA kB)
  have inA: "\<And>\<rho>. \<rho> \<in> set RA \<Longrightarrow> key_of ?on mc \<rho> \<in> set ?KA"
    unfolding kA[symmetric] by simp
  have inB: "\<And>\<rho>. \<rho> \<in> set RB \<Longrightarrow> key_of ?on mc \<rho> \<in> set ?KB"
    unfolding kB[symmetric] by simp
  have zero: "\<forall>r \<in> set (RA @ RB).
        (key_of ?on mc r \<in> set ?KA \<longrightarrow>
           (\<forall>c \<in> set (flag_columns B). cell_at mc r (name_right A c) = Num 0)) \<and>
        (key_of ?on mc r \<in> set ?KB \<longrightarrow>
           (\<forall>c \<in> set (flag_columns A). cell_at mc r (name_left B c) = Num 0))"
  proof
    fix r assume "r \<in> set (RA @ RB)"
    then consider "r \<in> set RA" | "r \<in> set RB" by auto
    then show "(key_of ?on mc r \<in> set ?KA \<longrightarrow>
           (\<forall>c \<in> set (flag_columns B). cell_at mc r (name_right A c) = Num 0)) \<and>
        (key_of ?on mc r \<in> set ?KB \<longrightarrow>
           (\<forall>c \<in> set (flag_columns A). cell_at mc r (name_left B c) = Num 0))"
    proof cases
      case 1
      with inA[OF 1] disj zA show ?thesis by blast
    next
      case 2
      with inB[OF 2] disj zB show ?thesis by blast
    qed
  qed
  show ?thesis
    using agg len keys zero assms(6) by (intro exI[of _ "\<lparr>columns = mc, rows = RA @ RB\<rparr>"]) simp
qed


lemma times_dup_output: "TIMES_cleanup toy_rdkit timesDup ''TIMES'' 1 = Inr dupA"
proof -
  have 1: "TIMES_select timesDup ''TIMES'' 1 =
     Inr \<lparr>columns = [''DTXSID'', ''Smiles'', ''TIMES'', ''Metabolite_INCHIKEY''],
          rows = [[Str ''P1'', Str ''C=C'', Num 1, NaN], [NaN, Str ''CCO'', Num 1, NaN],
                  [NaN, Str ''OCC'', Num 1, NaN]]\<rparr>"
    by (simp add: TIMES_select_def timesDup_def frame_simps)
  have 2: "TIMES_metabolites toy_rdkit
     \<lparr>columns = [''DTXSID'', ''Smiles'', ''TIMES'', ''Metabolite_INCHIKEY''],
          rows = [[Str ''P1'', Str ''C=C'', Num 1, NaN], [NaN, Str ''CCO'', Num 1, NaN],
                  [NaN, Str ''OCC'', Num 1, NaN]]\<rparr> =
     Inr \<lparr>columns = [''DTXSID'', ''Smiles'', ''TIMES'', ''Metabolite_INCHIKEY''],
          rows = [[Str ''P1'', Str ''CCO'', Num 1, Str ''K-CCO''],
                  [Str ''P1'', Str ''OCC'', Num 1, Str ''K-CCO'']]\<rparr>"
    by (simp add: TIMES_metabolites_def frame_simps rdkit_simps)
  have 3: "TIMES_properties toy_rdkit
     \<lparr>columns = [''DTXSID'', ''Smiles'', ''TIMES'', ''Metabolite_INCHIKEY''],
          rows = [[Str ''P1'', Str ''CCO'', Num 1, Str ''K-CCO''],
                  [Str ''P1'', Str ''OCC'', Num 1, Str ''K-CCO'']]\<rparr> ''TIMES'' = Inr dupA"
    by (simp add: TIMES_properties_def frame_simps rdkit_simps dupA_def)
  show ?thesis by (simp add: TIMES_cleanup_def 1 2 3 bind_def)
qed

theorem aggregate_disjoint_counterexample:
  "TIMES_cleanup toy_rdkit timesDup ''TIMES'' 1 = Inr dupA \<and>
   set (keys_of dupA) \<inter> set (keys_of oneB) = {} \<and>
   aggregate [dupA, oneB] =
     Inr (Some \<lparr>columns = [''DTXSID'', ''Metabolite_INCHIKEY'', ''Formula'', ''[M+H]'',
                           ''TIMES'', ''Meteor''],
                rows = [[Str ''P1'', Str ''K-CCO'', Str ''F-CCO'', Num 7, Num 1, Num 0],
                        [Str ''P2'', Str ''K3'', Num 0, Num 0, Num 0, Num 1]]\<rparr>) \<and>
   length (rows dupA) + length (rows oneB) = 3"
proof -
  have "aggregate [dupA, oneB] =
     Inr (Some \<lparr>columns = [''DTXSID'', ''Metabolite_INCHIKEY'', ''Formula'', ''[M+H]'',
                           ''TIMES'', ''Meteor''],
                rows = [[Str ''P1'', Str ''K-CCO'', Str ''F-CCO'', Num 7, Num 1, Num 0],
                        [Str ''P2'', Str ''K3'', Num 0, Num 0, Num 0, Num 1]]\<rparr>)"
    by (simp add: dupA_def oneB_def aggregate_simps)
  moreover have "set (keys_of dupA) \<inter> set (keys_of oneB) = {}"
    by (simp add: keys_of_def dupA_def oneB_def arg_on_default_def key_of_def cell_at_def)
  moreover have "length (rows dupA) + length (rows oneB) = 3"
    by (simp add: dupA_def oneB_def)
  ultimately show ?thesis using times_dup_output by simp
qed

lemma filled_key_string:
  assumes "string_keys df"
  shows "map (filled_key df) (rows df) = keys_of df"
  unfolding keys_of_def
proof (rule map_cong[OF refl])
  fix r assume "r \<in> set (rows df)"
  then have "\<forall>k \<in> set arg_on_default. is_string (cell_at (columns df) r k)"
    using assms by (simp add: string_keys_def list_all_iff)
  then have "\<forall>k \<in> set arg_on_default. fill0 (cell_at (columns df) r k) = cell_at (columns df) r k"
    by (auto simp: is_string_def fill0_def split: cell.splits)
  then show "filled_key df r = key_of arg_on_default (columns df) r"
    by (simp add: filled_key_def key_of_def)
qed

text \<open>
  C4, amended. Let two tables have one cell per column in every row, both key columns
  with strings for identifiers, and no column name twice after the merge. When no key
  occurs twice, within a table or across the two, the aggregate has one row per input
  row, every key occurs once, and a row holds 0 in each column contributed by the table
  it does not come from.
\<close>

theorem aggregate_disjoint:
  assumes "aligned A" and "aligned B" and "has_keys A" and "has_keys B"
    and "distinct_merged A B" and "string_keys A" and "string_keys B"
    and "distinct (keys_of A @ keys_of B)"
  shows "\<exists>df. aggregate [A, B] = Inr (Some df) \<and>
     length (rows df) = length (rows A) + length (rows B) \<and>
     distinct (keys_of df) \<and>
     set (keys_of df) = set (keys_of A) \<union> set (keys_of B) \<and>
     (\<forall>r \<in> set (rows df).
        (key_of arg_on_default (columns df) r \<in> set (keys_of A) \<longrightarrow>
           (\<forall>c \<in> set (flag_columns B). cell_at (columns df) r (name_right A c) = Num 0)) \<and>
        (key_of arg_on_default (columns df) r \<in> set (keys_of B) \<longrightarrow>
           (\<forall>c \<in> set (flag_columns A). cell_at (columns df) r (name_left B c) = Num 0)))"
proof -
  have kA: "map (filled_key A) (rows A) = keys_of A"
    and kB: "map (filled_key B) (rows B) = keys_of B"
    using assms(6,7) by (simp_all add: filled_key_string)
  have "distinct (map (filled_key A) (rows A) @ map (filled_key B) (rows B))"
    unfolding kA kB by (rule assms(8))
  from aggregate_disjoint_filled[OF assms(1-5) this] show ?thesis
    unfolding kA kB keys_of_def .
qed



theorem aggregate_disjoint_witness:
  "\<exists>df. aggregate [tA, oneB] = Inr (Some df) \<and> length (rows df) = 3 \<and>
        (\<forall>r \<in> set (rows df).
           (key_of arg_on_default (columns df) r = [Str ''P2'', Str ''K3''] \<longrightarrow>
              cell_at (columns df) r ''ToolBox'' = Num 0) \<and>
           (key_of arg_on_default (columns df) r = [Str ''P1'', Str ''K2''] \<longrightarrow>
              cell_at (columns df) r ''Meteor'' = Num 0))"
proof -
  have al: "aligned tA" "aligned oneB" by (simp_all add: aligned_def tA_def oneB_def)
  have hk: "has_keys tA" "has_keys oneB"
    by (simp_all add: has_keys_def arg_on_default_def tA_def oneB_def)
  have colsA: "columns (drop_excluded tA) = [''DTXSID'', ''Metabolite_INCHIKEY'', ''ToolBox'']"
    and colsB: "columns (drop_excluded oneB) = [''DTXSID'', ''Metabolite_INCHIKEY'', ''Meteor'']"
    by (simp_all add: columns_drop_excluded tA_def oneB_def)
  have dm: "distinct_merged tA oneB"
    by (simp add: distinct_merged_def colsA colsB merged_columns_def suffixed_def
        arg_on_default_def)
  have sk: "string_keys tA" "string_keys oneB"
    by (simp_all add: string_keys_def is_string_def arg_on_default_def cell_at_def
        tA_def oneB_def)
  have kA: "keys_of tA = [[Str ''P1'', Str ''K1''], [Str ''P1'', Str ''K2'']]"
    and kB: "keys_of oneB = [[Str ''P2'', Str ''K3'']]"
    by (simp_all add: keys_of_def key_of_def cell_at_def arg_on_default_def tA_def oneB_def)
  have dk: "distinct (keys_of tA @ keys_of oneB)"
    by (simp add: kA kB)
  have fA: "flag_columns tA = [''ToolBox'']" and fB: "flag_columns oneB = [''Meteor'']"
    by (simp_all add: flag_columns_def colsA colsB arg_on_default_def)
  have nl: "name_left oneB ''ToolBox'' = ''ToolBox''"
    and nr: "name_right tA ''Meteor'' = ''Meteor''"
    by (simp_all add: name_left_def name_right_def suffixed_def colsA colsB)
  from aggregate_disjoint[OF al hk dm sk dk]
  obtain df where agg: "aggregate [tA, oneB] = Inr (Some df)"
    and len: "length (rows df) = length (rows tA) + length (rows oneB)"
    and zero: "\<forall>r \<in> set (rows df).
        (key_of arg_on_default (columns df) r \<in> set (keys_of tA) \<longrightarrow>
           (\<forall>c \<in> set (flag_columns oneB). cell_at (columns df) r (name_right tA c) = Num 0)) \<and>
        (key_of arg_on_default (columns df) r \<in> set (keys_of oneB) \<longrightarrow>
           (\<forall>c \<in> set (flag_columns tA). cell_at (columns df) r (name_left oneB c) = Num 0))"
    by blast
  have l3: "length (rows df) = 3" using len by (simp add: tA_def oneB_def)
  have z: "\<forall>r \<in> set (rows df).
           (key_of arg_on_default (columns df) r = [Str ''P2'', Str ''K3''] \<longrightarrow>
              cell_at (columns df) r ''ToolBox'' = Num 0) \<and>
           (key_of arg_on_default (columns df) r = [Str ''P1'', Str ''K2''] \<longrightarrow>
              cell_at (columns df) r ''Meteor'' = Num 0)"
  proof (intro ballI conjI impI)
    fix r assume r: "r \<in> set (rows df)"
    { assume "key_of arg_on_default (columns df) r = [Str ''P2'', Str ''K3'']"
      then have "key_of arg_on_default (columns df) r \<in> set (keys_of oneB)" by (simp add: kB)
      with zero r have "\<forall>c \<in> set (flag_columns tA). cell_at (columns df) r (name_left oneB c) = Num 0"
        by blast
      then show "cell_at (columns df) r ''ToolBox'' = Num 0" by (simp add: fA nl) }
    { assume "key_of arg_on_default (columns df) r = [Str ''P1'', Str ''K2'']"
      then have "key_of arg_on_default (columns df) r \<in> set (keys_of tA)" by (simp add: kA)
      with zero r have "\<forall>c \<in> set (flag_columns oneB). cell_at (columns df) r (name_right tA c) = Num 0"
        by blast
      then show "cell_at (columns df) r ''Meteor'' = Num 0" by (simp add: fB nr) }
  qed
  show ?thesis using agg l3 z by blast
qed


section \<open>Properties of the adapters\<close>

lemma py_slice_body:
  "py_slice (int (length pre)) (- 2) (pre @ body @ [t1, t2]) = body"
  by (simp add: py_slice_def Let_def min_def max_def nat_add_distrib)

lemma times_select_file:
  assumes mm: "Model_Module \<notin> set [''DTXSID'', ''Smiles'', ''Metabolite_INCHIKEY'']"
    and P: "P1 \<noteq> '' ''" "P2 \<noteq> '' ''"
  shows "TIMES_select (times_file pre P1 s0 s1 s2 P2 s3 t1 t2) Model_Module (int (length pre)) =
     Inr \<lparr>columns = [''DTXSID'', ''Smiles'', Model_Module, ''Metabolite_INCHIKEY''],
          rows = [[Str P1, Str s0, Num 1, NaN], [NaN, Str s1, Num 1, NaN],
                  [NaN, Str s2, Num 1, NaN], [Str P2, Str s3, Num 1, NaN]]\<rparr>"
proof -
  have sel: "select_columns [''DTXSID'', ''Smiles'']
          (rename_column ''Chem. Name'' ''DTXSID'' (times_file pre P1 s0 s1 s2 P2 s3 t1 t2))
        = Inr \<lparr>columns = [''DTXSID'', ''Smiles''],
               rows = map (\<lambda>r. map (cell_at [''DTXSID'', ''Smiles''] r) [''DTXSID'', ''Smiles'']) pre
                    @ [[Str P1, Str s0], [NaN, Str s1], [NaN, Str s2], [Str P2, Str s3]]
                    @ [map (cell_at [''DTXSID'', ''Smiles''] t1) [''DTXSID'', ''Smiles''],
                       map (cell_at [''DTXSID'', ''Smiles''] t2) [''DTXSID'', ''Smiles'']]\<rparr>"
    by (simp add: select_columns_def rename_column_def times_file_def cell_at_def)
  have sl: "\<And>f body a b. py_slice (int (length pre)) (- 2) (map f pre @ body @ [a, b]) = body"
    using py_slice_body[of "map f pre" for f] by (metis length_map)
  show ?thesis
    unfolding TIMES_select_def sel bind_def sum.case Let_def dataframe.select_convs
      dataframe.update_convs sl
    using mm P by (auto simp: getcol_def setcol_def setcol_const_def cell_at_def)
qed


lemma times_metabolites_file:
  assumes mm: "Model_Module \<notin> set [''DTXSID'', ''Smiles'', ''Metabolite_INCHIKEY'']"
    and parse: "MolFromSmiles rd s1 = Some m1" "MolFromSmiles rd s2 = Some m2"
  shows "TIMES_metabolites rd
     \<lparr>columns = [''DTXSID'', ''Smiles'', Model_Module, ''Metabolite_INCHIKEY''],
          rows = [[Str P1, Str s0, Num 1, NaN], [NaN, Str s1, Num 1, NaN],
                  [NaN, Str s2, Num 1, NaN], [Str P2, Str s3, Num 1, NaN]]\<rparr> =
     Inr \<lparr>columns = [''DTXSID'', ''Smiles'', Model_Module, ''Metabolite_INCHIKEY''],
          rows = (if s1 = s2 then [[Str P1, Str s1, Num 1, Str (MolToInchiKey rd m1)]]
                  else [[Str P1, Str s1, Num 1, Str (MolToInchiKey rd m1)],
                        [Str P1, Str s2, Num 1, Str (MolToInchiKey rd m2)]])\<rparr>"
  using mm parse
  by (auto simp: TIMES_metabolites_def bind_def getcol_def setcol_def cell_at_def Let_def
      SMILES_to_InchiKey_def mol_of_cell_def on_mol_def filter_rows_def drop_duplicates_def)

lemma times_properties_rows:
  assumes mm: "Model_Module \<notin> set [''DTXSID'', ''Smiles'', ''Metabolite_INCHIKEY'',
                  ''Formula'', ''[M+H]'', ''Clean_SMILES'']"
    and parse: "list_all (\<lambda>(s, m). MolFromSmiles rd s = Some m) sms"
      "MolFromSmiles rd ''[H+]'' = Some h"
    and len: "length sms \<le> 2"
  shows "TIMES_properties rd
     \<lparr>columns = [''DTXSID'', ''Smiles'', Model_Module, ''Metabolite_INCHIKEY''],
          rows = map (\<lambda>(s, m). [Str P, Str s, Num 1, Str (MolToInchiKey rd m)]) sms\<rparr>
       Model_Module =
     Inr \<lparr>columns = [''DTXSID'', ''Metabolite_INCHIKEY'', ''Clean_SMILES'', ''Formula'',
                     ''[M+H]'', Model_Module],
          rows = map (\<lambda>(s, m). metabolite_row rd P m h) sms\<rparr>"
proof -
  have ne: "Model_Module \<noteq> ''DTXSID''" "Model_Module \<noteq> ''Smiles''"
    "Model_Module \<noteq> ''Metabolite_INCHIKEY''" "Model_Module \<noteq> ''Formula''"
    "Model_Module \<noteq> ''[M+H]''" "Model_Module \<noteq> ''Clean_SMILES''"
    using mm by simp_all
  note ne' = ne[symmetric]
  note defs = TIMES_properties_def bind_def getcol_def setcol_def cell_at_def Let_def
      SMILES_to_MW_def clean_SMILES_def mol_of_cell_def on_mol_def select_columns_def
      metabolite_row_def
  consider "sms = []" | s m where "sms = [(s, m)]" | s m s' m' where "sms = [(s, m), (s', m')]"
    using len by (cases sms; cases "tl sms"; cases "tl (tl sms)") auto
  then show ?thesis
  proof cases
    case 1
    then show ?thesis using parse(2) by (simp add: defs ne ne')
  next
    case 2
    then show ?thesis using parse by (simp add: defs ne ne')
  next
    case 3
    then show ?thesis using parse by (simp add: defs ne ne')
  qed
qed


text \<open>
  C7, amended. Let the rows that \<open>TIMES_cleanup\<close> keeps of the file, those after the
  first \<open>header\<close> rows and before the last two, be a parent row \<open>(P1, s0)\<close>, two rows
  \<open>s1\<close> and \<open>s2\<close> without parent, and a parent row \<open>(P2, s3)\<close>. Then the output is
  exactly the rows of the metabolites \<open>s1\<close> and \<open>s2\<close>, both with parent \<open>P1\<close>, and
  holds no row of a parent.
\<close>

theorem TIMES_forward_fill:
  assumes "Model_Module \<notin> set [''DTXSID'', ''Smiles'', ''Metabolite_INCHIKEY'',
                  ''Formula'', ''[M+H]'', ''Clean_SMILES'']"
    and "P1 \<noteq> '' ''" and "P2 \<noteq> '' ''"
    and "MolFromSmiles rd s1 = Some m1" and "MolFromSmiles rd s2 = Some m2"
    and "MolFromSmiles rd ''[H+]'' = Some h"
  shows "TIMES_cleanup rd (times_file pre P1 s0 s1 s2 P2 s3 t1 t2) Model_Module
           (int (length pre)) =
     Inr \<lparr>columns = [''DTXSID'', ''Metabolite_INCHIKEY'', ''Clean_SMILES'', ''Formula'',
                     ''[M+H]'', Model_Module],
          rows = (if s1 = s2 then [metabolite_row rd P1 m1 h]
                  else [metabolite_row rd P1 m1 h, metabolite_row rd P1 m2 h])\<rparr>"
proof -
  have mm: "Model_Module \<notin> set [''DTXSID'', ''Smiles'', ''Metabolite_INCHIKEY'']"
    using assms(1) by simp
  have sel: "TIMES_cleanup rd (times_file pre P1 s0 s1 s2 P2 s3 t1 t2) Model_Module
           (int (length pre)) =
      TIMES_properties rd
        \<lparr>columns = [''DTXSID'', ''Smiles'', Model_Module, ''Metabolite_INCHIKEY''],
          rows = (if s1 = s2 then [[Str P1, Str s1, Num 1, Str (MolToInchiKey rd m1)]]
                  else [[Str P1, Str s1, Num 1, Str (MolToInchiKey rd m1)],
                        [Str P1, Str s2, Num 1, Str (MolToInchiKey rd m2)]])\<rparr> Model_Module"
    unfolding TIMES_cleanup_def times_select_file[OF mm assms(2,3)] bind_def sum.case
      times_metabolites_file[OF mm assms(4,5)] ..
  show ?thesis
  proof (cases "s1 = s2")
    case True
    have "list_all (\<lambda>(s, m). MolFromSmiles rd s = Some m) [(s1, m1)]"
      using assms(4) by simp
    from times_properties_rows[OF assms(1) this assms(6), of P1] True
    show ?thesis unfolding sel by simp
  next
    case False
    have "list_all (\<lambda>(s, m). MolFromSmiles rd s = Some m) [(s1, m1), (s2, m2)]"
      using assms(4,5) by simp
    from times_properties_rows[OF assms(1) this assms(6), of P1] False
    show ?thesis unfolding sel by simp
  qed
qed


theorem TIMES_forward_fill_witness:
  "TIMES_cleanup toy_rdkit
     (times_file [[Str ''units'', NaN]] ''P1'' ''s0'' ''s1'' ''s2'' ''P2'' ''s3''
        [NaN, NaN] [NaN, NaN]) ''TIMES'' 1 =
     Inr \<lparr>columns = [''DTXSID'', ''Metabolite_INCHIKEY'', ''Clean_SMILES'', ''Formula'',
                     ''[M+H]'', ''TIMES''],
          rows = [[Str ''P1'', Str ''K-s1'', Str ''s1'', Str ''F-s1'', Num 6, Num 1],
                  [Str ''P1'', Str ''K-s2'', Str ''s2'', Str ''F-s2'', Num 6, Num 1]]\<rparr>"
proof -
  have mm: "''TIMES'' \<notin> set [''DTXSID'', ''Smiles'', ''Metabolite_INCHIKEY'',
                  ''Formula'', ''[M+H]'', ''Clean_SMILES'']" by simp
  have P: "''P1'' \<noteq> '' ''" "''P2'' \<noteq> '' ''" by simp_all
  have parse: "MolFromSmiles toy_rdkit ''s1'' = Some ''s1''"
    "MolFromSmiles toy_rdkit ''s2'' = Some ''s2''"
    "MolFromSmiles toy_rdkit ''[H+]'' = Some ''[H+]''"
    by (simp_all add: toy_rdkit_def)
  have "int (length [[Str ''units'', NaN]]) = 1" by simp
  with TIMES_forward_fill[OF mm P parse, of "[[Str ''units'', NaN]]" "''s0''" "''s3''"
      "[NaN, NaN]" "[NaN, NaN]"]
  show ?thesis by (simp add: metabolite_row_def toy_rdkit_def)
qed

theorem TIMES_forward_fill_counterexample:
  "TIMES_cleanup toy_rdkit times4 ''TIMES'' 1 =
     Inr \<lparr>columns = [''DTXSID'', ''Metabolite_INCHIKEY'', ''Clean_SMILES'', ''Formula'',
                     ''[M+H]'', ''TIMES''],
          rows = [[NaN, Str ''K-s1'', Str ''s1'', Str ''F-s1'', Num 6, Num 1]]\<rparr> \<and>
   TIMES_cleanup toy_rdkit times4 ''TIMES'' 0 =
     Inr \<lparr>columns = [''DTXSID'', ''Metabolite_INCHIKEY'', ''Clean_SMILES'', ''Formula'',
                     ''[M+H]'', ''TIMES''],
          rows = [[Str ''P1'', Str ''K-s1'', Str ''s1'', Str ''F-s1'', Num 6, Num 1]]\<rparr>"
proof -
  let ?cs = "[''DTXSID'', ''Smiles'', ''TIMES'', ''Metabolite_INCHIKEY'']"
  have s1: "TIMES_select times4 ''TIMES'' 1 =
     Inr \<lparr>columns = ?cs, rows = [[NaN, Str ''s1'', Num 1, NaN]]\<rparr>"
    by (simp add: TIMES_select_def times4_def frame_simps)
  have m1: "TIMES_metabolites toy_rdkit \<lparr>columns = ?cs, rows = [[NaN, Str ''s1'', Num 1, NaN]]\<rparr> =
     Inr \<lparr>columns = ?cs, rows = [[NaN, Str ''s1'', Num 1, Str ''K-s1'']]\<rparr>"
    by (simp add: TIMES_metabolites_def frame_simps rdkit_simps)
  have p1: "TIMES_properties toy_rdkit
       \<lparr>columns = ?cs, rows = [[NaN, Str ''s1'', Num 1, Str ''K-s1'']]\<rparr> ''TIMES'' =
     Inr \<lparr>columns = [''DTXSID'', ''Metabolite_INCHIKEY'', ''Clean_SMILES'', ''Formula'',
                     ''[M+H]'', ''TIMES''],
          rows = [[NaN, Str ''K-s1'', Str ''s1'', Str ''F-s1'', Num 6, Num 1]]\<rparr>"
    by (simp add: TIMES_properties_def frame_simps rdkit_simps)
  have s0: "TIMES_select times4 ''TIMES'' 0 =
     Inr \<lparr>columns = ?cs, rows = [[Str ''P1'', Str ''s0'', Num 1, NaN],
                                  [NaN, Str ''s1'', Num 1, NaN]]\<rparr>"
    by (simp add: TIMES_select_def times4_def frame_simps)
  have m0: "TIMES_metabolites toy_rdkit
       \<lparr>columns = ?cs, rows = [[Str ''P1'', Str ''s0'', Num 1, NaN],
                              [NaN, Str ''s1'', Num 1, NaN]]\<rparr> =
     Inr \<lparr>columns = ?cs, rows = [[Str ''P1'', Str ''s1'', Num 1, Str ''K-s1'']]\<rparr>"
    by (simp add: TIMES_metabolites_def frame_simps rdkit_simps)
  have p0: "TIMES_properties toy_rdkit
       \<lparr>columns = ?cs, rows = [[Str ''P1'', Str ''s1'', Num 1, Str ''K-s1'']]\<rparr> ''TIMES'' =
     Inr \<lparr>columns = [''DTXSID'', ''Metabolite_INCHIKEY'', ''Clean_SMILES'', ''Formula'',
                     ''[M+H]'', ''TIMES''],
          rows = [[Str ''P1'', Str ''K-s1'', Str ''s1'', Str ''F-s1'', Num 6, Num 1]]\<rparr>"
    by (simp add: TIMES_properties_def frame_simps rdkit_simps)
  show ?thesis
    by (simp add: TIMES_cleanup_def s1 m1 p1 s0 m0 p0 bind_def)
qed



end
